theory Spec2Isabelle
  imports Main
begin

section \<open>Strings\<close>

text \<open>
  Source strings are modelled as \<^typ>\<open>string\<close> (lists of 8-bit characters). The string
  operations below are the ECMAScript ones restricted to ASCII text: case mapping touches
  the letters A to Z only, and white space is the ASCII white space.
\<close>

definition upper_lower :: "(char \<times> char) list" where
  "upper_lower = zip ''ABCDEFGHIJKLMNOPQRSTUVWXYZ'' ''abcdefghijklmnopqrstuvwxyz''"

definition lower_char :: "char \<Rightarrow> char" where
  "lower_char c = (case map_of upper_lower c of Some d \<Rightarrow> d | None \<Rightarrow> c)"

text \<open>\<^verbatim>\<open>s.toLowerCase()\<close>\<close>

definition toLowerCase :: "string \<Rightarrow> string" where
  "toLowerCase s = map lower_char s"

text \<open>\<^verbatim>\<open>s.startsWith(p)\<close>\<close>

definition startsWith :: "string \<Rightarrow> string \<Rightarrow> bool" where
  "startsWith s p = (take (length p) s = p)"

text \<open>\<^verbatim>\<open>s.includes(p)\<close>: \<open>p\<close> occurs in \<open>s\<close> as a contiguous run.\<close>

fun str_includes :: "string \<Rightarrow> string \<Rightarrow> bool" where
  "str_includes [] p = (p = [])"
| "str_includes (c # cs) p = (startsWith (c # cs) p \<or> str_includes cs p)"

text \<open>\<^verbatim>\<open>s.replace(/suffix$/, '')\<close> for a literal suffix.\<close>

definition strip_suffix :: "string \<Rightarrow> string \<Rightarrow> string" where
  "strip_suffix suf s =
     (if length suf \<le> length s \<and> drop (length s - length suf) s = suf
      then take (length s - length suf) s else s)"

definition is_digit :: "char \<Rightarrow> bool" where
  "is_digit c = (c \<in> set ''0123456789'')"

text \<open>
  \<^verbatim>\<open>s.replace(/-\d+[bm]$/, '')\<close>: the string ends in \<open>b\<close> or \<open>m\<close>, preceded by the
  longest run of digits, which is not empty and is preceded by a hyphen. Read from the
  end of the string.
\<close>

definition strip_size :: "string \<Rightarrow> string" where
  "strip_size s =
     (case rev s of
        [] \<Rightarrow> s
      | c # r \<Rightarrow>
          if c = CHR ''b'' \<or> c = CHR ''m'' then
            (case dropWhile is_digit r of
               [] \<Rightarrow> s
             | h # t \<Rightarrow>
                 if takeWhile is_digit r \<noteq> [] \<and> h = CHR ''-'' then rev t else s)
          else s)"

section \<open>Model capabilities (ModelCapabilities.ts)\<close>

datatype toolFormat = Openai | Hermes | Custom

datatype promptStyle = Standard | Agentic | HermesStyle

datatype multiTurnSupport = Excellent | Good | Poor

record capabilities_config =
  recommendedContextSize :: "nat option"
  requiresExplicitToolChoice :: "bool option"
  specialTokens :: "string list option"

record ModelToolCapabilities =
  supportsTools :: bool
  toolFormat :: toolFormat
  maxTools :: nat
  supportsParallel :: bool
  supportsStreaming :: bool
  customParser :: "string option"
  promptStyle :: promptStyle
  multiTurnSupport :: multiTurnSupport
  version :: "string option"
  config :: "capabilities_config option"

definition caps ::
  "toolFormat \<Rightarrow> nat \<Rightarrow> bool \<Rightarrow> bool \<Rightarrow> string option \<Rightarrow> promptStyle \<Rightarrow>
   multiTurnSupport \<Rightarrow> string option \<Rightarrow> capabilities_config option \<Rightarrow> ModelToolCapabilities"
where
  "caps tf mx par str cp ps mt ver cfg =
     \<lparr>supportsTools = True, toolFormat = tf, maxTools = mx, supportsParallel = par,
      supportsStreaming = str, customParser = cp, promptStyle = ps, multiTurnSupport = mt,
      version = ver, config = cfg\<rparr>"

text \<open>
  The table \<^verbatim>\<open>MODEL_CAPABILITIES\<close>, in the order of the object literal (the order in which
  \<^verbatim>\<open>Object.entries\<close> lists its keys, none of which is an array index).
\<close>

definition MODEL_CAPABILITIES :: "(string \<times> ModelToolCapabilities) list" where
  "MODEL_CAPABILITIES =
    [(''qwen2.5-coder:32b'',
        caps Hermes 64 True True (Some ''qwen3coder'') HermesStyle Good None
          (Some \<lparr>recommendedContextSize = Some 32768, requiresExplicitToolChoice = Some False,
                 specialTokens = Some [''<tool_call>'', ''</tool_call>'']\<rparr>)),
     (''qwen2.5-coder:14b'',
        caps Hermes 32 True True (Some ''qwen3coder'') HermesStyle Good None
          (Some \<lparr>recommendedContextSize = Some 32768, requiresExplicitToolChoice = Some False,
                 specialTokens = None\<rparr>)),
     (''qwen2.5-coder:7b'',
        caps Hermes 16 False True (Some ''qwen3coder'') HermesStyle Good None None),
     (''mistral:latest'',
        caps Openai 128 True False None Standard Excellent None
          (Some \<lparr>recommendedContextSize = None, requiresExplicitToolChoice = Some True,
                 specialTokens = None\<rparr>)),
     (''mistral-nemo'', caps Openai 64 True False None Standard Excellent None None),
     (''codestral'', caps Openai 32 True False None Standard Good None None),
     (''deepseek-chat'',
        caps Openai 128 True False None Standard Poor None
          (Some \<lparr>recommendedContextSize = None, requiresExplicitToolChoice = Some True,
                 specialTokens = None\<rparr>)),
     (''deepseek-reasoner'',
        caps Openai 64 True False None Standard Poor (Some ''R1-0528'') None),
     (''kimi-k2'',
        caps Openai 64 True True None Agentic Excellent None
          (Some \<lparr>recommendedContextSize = Some 128000, requiresExplicitToolChoice = Some False,
                 specialTokens = None\<rparr>)),
     (''llama3.1:latest'', caps Openai 32 True True None Standard Good None None),
     (''llama3.2:latest'', caps Openai 16 False True None Standard Good None None),
     (''firefunction-v2'', caps Openai 64 True False None Standard Good None None),
     (''command-r-plus'', caps Openai 32 True False None Standard Good None None)]"

definition DEFAULT_MODEL_CAPABILITIES :: ModelToolCapabilities where
  "DEFAULT_MODEL_CAPABILITIES =
     \<lparr>supportsTools = False, toolFormat = Openai, maxTools = 0, supportsParallel = False,
      supportsStreaming = False, customParser = None, promptStyle = Standard,
      multiTurnSupport = Poor, version = None, config = None\<rparr>"

text \<open>
  \<^verbatim>\<open>MODEL_CAPABILITIES\<close> is an object literal, so \<^verbatim>\<open>MODEL_CAPABILITIES[key]\<close> reads the
  table's own properties and, for a key that is not one of them, the properties the
  object inherits from \<^verbatim>\<open>Object.prototype\<close>. These are the property names of
  \<^verbatim>\<open>Object.prototype\<close> in ECMAScript (with its Annex B); each holds a function or an
  object, which the test \<^verbatim>\<open>if (MODEL_CAPABILITIES[key])\<close> takes as true.
\<close>

definition Object_prototype_keys :: "string list" where
  "Object_prototype_keys =
     [''constructor'', ''hasOwnProperty'', ''isPrototypeOf'', ''propertyIsEnumerable'',
      ''toLocaleString'', ''toString'', ''valueOf'', ''__proto__'', ''__defineGetter__'',
      ''__defineSetter__'', ''__lookupGetter__'', ''__lookupSetter__'']"

text \<open>
  What a read of the table gives when it is not \<^verbatim>\<open>undefined\<close>: a capabilities record of
  the table, or an inherited member, which is no capabilities record (every field of
  \<^verbatim>\<open>ModelToolCapabilities\<close> read from it is \<^verbatim>\<open>undefined\<close>).
\<close>

datatype table_value = Capabilities ModelToolCapabilities | InheritedMember string

definition table_get :: "string \<Rightarrow> table_value option" where
  "table_get key =
     (case map_of MODEL_CAPABILITIES key of
        Some c \<Rightarrow> Some (Capabilities c)
      | None \<Rightarrow> if key \<in> set Object_prototype_keys then Some (InheritedMember key) else None)"

text \<open>
  \<^verbatim>\<open>normalizeModelName\<close>: lower case, every \<open>:\<close> and \<open>@\<close> replaced by \<open>-\<close>, then one size
  suffix, one \<open>-instruct\<close>, one \<open>-chat\<close> and one \<open>-latest\<close> removed from the end, in this
  order.
\<close>

definition normalizeModelName :: "string \<Rightarrow> string" where
  "normalizeModelName modelName =
     strip_suffix ''-latest''
       (strip_suffix ''-chat''
          (strip_suffix ''-instruct''
             (strip_size
                (map (\<lambda>c. if c = CHR '':'' \<or> c = CHR ''@'' then CHR ''-'' else c)
                   (toLowerCase modelName)))))"

text \<open>The loop over \<^verbatim>\<open>Object.entries(MODEL_CAPABILITIES)\<close> of \<^verbatim>\<open>getModelCapabilities\<close>.\<close>

fun family_match ::
  "string \<Rightarrow> string \<Rightarrow> (string \<times> ModelToolCapabilities) list \<Rightarrow> ModelToolCapabilities option"
where
  "family_match modelName normalizedName [] = None"
| "family_match modelName normalizedName ((knownModel, capabilities) # entries) =
     (if str_includes modelName knownModel \<or> str_includes knownModel normalizedName
      then Some capabilities
      else family_match modelName normalizedName entries)"

definition getModelCapabilities :: "string \<Rightarrow> table_value" where
  "getModelCapabilities modelName =
     (let normalizedName = normalizeModelName modelName in
      case table_get modelName of
        Some v \<Rightarrow> v
      | None \<Rightarrow>
          (case table_get normalizedName of
             Some v \<Rightarrow> v
           | None \<Rightarrow>
               (case family_match modelName normalizedName MODEL_CAPABILITIES of
                  Some capabilities \<Rightarrow> Capabilities capabilities
                | None \<Rightarrow> Capabilities DEFAULT_MODEL_CAPABILITIES)))"

text \<open>
  Reads of two fields of the value \<^verbatim>\<open>getModelCapabilities\<close> returned. On an inherited
  member a field is \<^verbatim>\<open>undefined\<close>, which is equal to no string.
\<close>

definition customParser_of :: "table_value \<Rightarrow> string option" where
  "customParser_of v = (case v of Capabilities c \<Rightarrow> customParser c | InheritedMember _ \<Rightarrow> None)"

definition multiTurnSupport_of :: "table_value \<Rightarrow> multiTurnSupport option" where
  "multiTurnSupport_of v =
     (case v of Capabilities c \<Rightarrow> Some (multiTurnSupport c) | InheritedMember _ \<Rightarrow> None)"


section \<open>JSON values\<close>

text \<open>
  A JSON value as \<^verbatim>\<open>JSON.parse\<close> builds it. No function of this development computes
  with a number, so numbers are carried as integers. An object is the list of its
  properties.
\<close>

datatype json =
  JNull | JBool bool | JNum int | JStr string | JArr "json list" | JObj "(string \<times> json) list"

datatype js_type = TString | TObject | TNumber | TBoolean

text \<open>\<^verbatim>\<open>typeof v\<close>; \<^verbatim>\<open>typeof null\<close> and \<^verbatim>\<open>typeof []\<close> are \<^verbatim>\<open>'object'\<close>.\<close>

fun typeof :: "json \<Rightarrow> js_type" where
  "typeof (JStr s) = TString"
| "typeof (JNum n) = TNumber"
| "typeof (JBool b) = TBoolean"
| "typeof JNull = TObject"
| "typeof (JArr xs) = TObject"
| "typeof (JObj kvs) = TObject"

text \<open>
  \<^verbatim>\<open>v.key\<close> for the keys \<^verbatim>\<open>parameters\<close> and \<^verbatim>\<open>arguments\<close> on a value that is an object or an
  array: a property of the object, \<^verbatim>\<open>undefined\<close> (\<open>None\<close>) otherwise.
\<close>

fun get_property :: "json \<Rightarrow> string \<Rightarrow> json option" where
  "get_property (JObj kvs) key = map_of kvs key"
| "get_property v key = None"

section \<open>Tool translation (OllamaToolTranslator.ts)\<close>

text \<open>The schema of one parameter: its description and its other fields.\<close>

record Schema =
  schema_description :: "string option"
  schema_rest :: "(string \<times> json) list"

record Parameters =
  properties :: "(string \<times> Schema) list option"
  required :: "string list option"

record FunctionDeclaration =
  fd_name :: "string option"
  fd_description :: "string option"
  fd_parameters :: "Parameters option"

text \<open>
  A tool of the caller. \<open>functionDeclarations\<close> is \<open>None\<close> when the tool has no such
  property or the property is \<^verbatim>\<open>undefined\<close>; \<open>other_fields\<close> are the tool's other properties.
\<close>

record Tool =
  functionDeclarations :: "FunctionDeclaration list option"
  other_fields :: "(string \<times> json) list"

text \<open>
  An \<^verbatim>\<open>OllamaTool\<close>: \<^verbatim>\<open>{type: 'function', function: {name, description, parameters:
  {type: 'object', properties, required}}}\<close>, without its two constant fields.
\<close>

record OllamaTool =
  tool_name :: string
  tool_description :: string
  tool_properties :: "(string \<times> Schema) list"
  tool_required :: "string list"

definition is_space :: "char \<Rightarrow> bool" where
  "is_space c = (c \<in> set [CHR 0x09, CHR 0x0A, CHR 0x0B, CHR 0x0C, CHR 0x0D, CHR 0x20])"

text \<open>\<^verbatim>\<open>s.trim()\<close>\<close>

definition trim :: "string \<Rightarrow> string" where
  "trim s = rev (dropWhile is_space (rev (dropWhile is_space s)))"

text \<open>The part of a run of white space after its last line feed.\<close>

definition after_last_newline :: "string \<Rightarrow> string" where
  "after_last_newline run = rev (takeWhile (\<lambda>c. c \<noteq> CHR 0x0A) (rev run))"

text \<open>
  \<^verbatim>\<open>s.replace(/\n\s*\n/g, '\n')\<close>: at a line feed, the white space after it is matched up
  to its last line feed, when it has one, and the match is replaced by one line feed;
  the search goes on after the match.
\<close>

function collapse_newlines :: "string \<Rightarrow> string" where
  "collapse_newlines [] = []"
| "collapse_newlines (c # cs) =
     (if c = CHR 0x0A \<and> CHR 0x0A \<in> set (takeWhile is_space cs)
      then CHR 0x0A # after_last_newline (takeWhile is_space cs) @
             collapse_newlines (dropWhile is_space cs)
      else c # collapse_newlines cs)"
  by pat_completeness auto
termination
  by (relation "measure length") (auto simp: less_Suc_eq_le length_dropWhile_le)

definition sanitizeDescription :: "string \<Rightarrow> ModelToolCapabilities \<Rightarrow> string" where
  "sanitizeDescription description capabilities =
     (if description = [] then ''No description provided''
      else
        let sanitized =
              trim (collapse_newlines (filter (\<lambda>c. c \<noteq> CHR ''<'' \<and> c \<noteq> CHR ''>'') description));
            sanitized =
              (if toolFormat capabilities = Hermes
                  \<and> \<not> str_includes (toLowerCase sanitized) ''function''
                  \<and> \<not> str_includes (toLowerCase sanitized) ''tool''
               then ''Function to '' @ toLowerCase sanitized
               else sanitized);
            maxLength = (if toolFormat capabilities = Custom then 200 else 500 :: nat)
        in if length sanitized > maxLength
           then take (maxLength - 3) sanitized @ ''...''
           else sanitized)"

definition enhanceParameterDescriptions ::
  "(string \<times> Schema) list \<Rightarrow> (string \<times> Schema) list"
where
  "enhanceParameterDescriptions props =
     map (\<lambda>(key, v).
            (case schema_description v of
               Some originalDesc \<Rightarrow>
                 if originalDesc \<noteq> [] \<and> \<not> str_includes originalDesc ''Parameter:''
                 then (key, v\<lparr>schema_description := Some (''Parameter: '' @ originalDesc)\<rparr>)
                 else (key, v)
             | None \<Rightarrow> (key, v)))
         props"

text \<open>\<^verbatim>\<open>convertParameters\<close>: the pair of \<^verbatim>\<open>properties\<close> and \<^verbatim>\<open>required\<close>.\<close>

definition convertParameters ::
  "FunctionDeclaration \<Rightarrow> ModelToolCapabilities \<Rightarrow> (string \<times> Schema) list \<times> string list"
where
  "convertParameters functionDecl capabilities =
     (case fd_parameters functionDecl of
        None \<Rightarrow> ([], [])
      | Some ps \<Rightarrow>
          let props = (case properties ps of Some p \<Rightarrow> p | None \<Rightarrow> []);
              req = (case required ps of Some r \<Rightarrow> r | None \<Rightarrow> [])
          in (if toolFormat capabilities = Hermes then enhanceParameterDescriptions props
              else props, req))"

definition make_tool ::
  "FunctionDeclaration \<Rightarrow> string \<Rightarrow> ModelToolCapabilities \<Rightarrow> OllamaTool"
where
  "make_tool functionDecl description capabilities =
     \<lparr>tool_name = (case fd_name functionDecl of Some n \<Rightarrow> n | None \<Rightarrow> ''unnamed_function''),
      tool_description = sanitizeDescription description capabilities,
      tool_properties = fst (convertParameters functionDecl capabilities),
      tool_required = snd (convertParameters functionDecl capabilities)\<rparr>"

definition description_or_empty :: "FunctionDeclaration \<Rightarrow> string" where
  "description_or_empty functionDecl =
     (case fd_description functionDecl of Some d \<Rightarrow> d | None \<Rightarrow> [])"

definition convertToOpenAIFormat ::
  "FunctionDeclaration \<Rightarrow> ModelToolCapabilities \<Rightarrow> OllamaTool"
where
  "convertToOpenAIFormat functionDecl capabilities =
     make_tool functionDecl (description_or_empty functionDecl) capabilities"

definition convertToHermesFormat ::
  "FunctionDeclaration \<Rightarrow> ModelToolCapabilities \<Rightarrow> OllamaTool"
where
  "convertToHermesFormat functionDecl capabilities =
     (let description = description_or_empty functionDecl;
          enhancedDescription =
            description @ [CHR 0x0A, CHR 0x0A] @ ''Use this tool when you need to '' @
            toLowerCase description @ ''.''
      in make_tool functionDecl enhancedDescription capabilities)"

definition convertToQwenCoderFormat ::
  "FunctionDeclaration \<Rightarrow> ModelToolCapabilities \<Rightarrow> OllamaTool"
where
  "convertToQwenCoderFormat functionDecl capabilities =
     (let description = description_or_empty functionDecl;
          coderDescription =
            description @ [CHR 0x0A, CHR 0x0A] @
            ''Usage: Call this function when you need to '' @ toLowerCase description @
            ''.'' @ [CHR 0x0A] @ ''Think step by step before calling this function.''
      in make_tool functionDecl coderDescription capabilities)"

definition convertToCustomFormat ::
  "FunctionDeclaration \<Rightarrow> ModelToolCapabilities \<Rightarrow> OllamaTool"
where
  "convertToCustomFormat functionDecl capabilities =
     (if customParser capabilities = Some ''qwen3coder''
      then convertToQwenCoderFormat functionDecl capabilities
      else convertToOpenAIFormat functionDecl capabilities)"

text \<open>
  What \<^verbatim>\<open>convertSingleTool\<close> writes to the console:
  \<^verbatim>\<open>Tool missing functionDeclarations\<close> and \<^verbatim>\<open>Tool has empty functionDeclarations\<close>, each
  with the tool. (The warning of its \<^verbatim>\<open>default\<close> branch needs a tool format that is none of
  the three of the type.)
\<close>

datatype console_warning = MissingDeclarationsLogged Tool | EmptyDeclarationsLogged Tool

text \<open>
  \<^verbatim>\<open>convertSingleTool\<close>: its result (\<open>None\<close> is its \<^verbatim>\<open>null\<close>) and what it writes to the
  console.
\<close>

definition convertSingleTool ::
  "Tool \<Rightarrow> ModelToolCapabilities \<Rightarrow> OllamaTool option \<times> console_warning list"
where
  "convertSingleTool tool capabilities =
     (case functionDeclarations tool of
        None \<Rightarrow> (None, [MissingDeclarationsLogged tool])
      | Some [] \<Rightarrow> (None, [EmptyDeclarationsLogged tool])
      | Some (functionDecl # others) \<Rightarrow>
          (case toolFormat capabilities of
             Openai \<Rightarrow> (Some (convertToOpenAIFormat functionDecl capabilities), [])
           | Hermes \<Rightarrow> (Some (convertToHermesFormat functionDecl capabilities), [])
           | Custom \<Rightarrow> (Some (convertToCustomFormat functionDecl capabilities), [])))"

text \<open>
  The body of \<^verbatim>\<open>translateGeminiToolsToOllama\<close> once the capabilities are a record of the
  table or the default: the list it returns.
\<close>

definition translate_tools :: "ModelToolCapabilities \<Rightarrow> Tool list \<Rightarrow> OllamaTool list" where
  "translate_tools capabilities tools =
     (if \<not> supportsTools capabilities \<or> length tools = 0 then []
      else
        let limitedTools = take (maxTools capabilities) tools
        in List.map_filter (\<lambda>tool. fst (convertSingleTool tool capabilities)) limitedTools)"

text \<open>
  \<^verbatim>\<open>translateGeminiToolsToOllama\<close>. On an inherited member \<^verbatim>\<open>capabilities.supportsTools\<close>
  is \<^verbatim>\<open>undefined\<close>, and the first \<^verbatim>\<open>if\<close> returns the empty list.
\<close>

definition translateGeminiToolsToOllama :: "Tool list \<Rightarrow> string \<Rightarrow> OllamaTool list" where
  "translateGeminiToolsToOllama tools modelName =
     (case getModelCapabilities modelName of
        Capabilities capabilities \<Rightarrow> translate_tools capabilities tools
      | InheritedMember m \<Rightarrow> [])"

text \<open>
  The warnings of \<^verbatim>\<open>validateToolsForModel\<close>, one constructor for each message, with the
  values the message names:
  \<^verbatim>\<open>Model ${modelName} does not support tool calling\<close>,
  \<^verbatim>\<open>Model ${modelName} supports max ${maxTools} tools, got ${tools.length}. Truncating.\<close> and
  \<^verbatim>\<open>Tool missing valid functionDeclarations: ${JSON.stringify(tool)}\<close>.
\<close>

datatype tool_warning =
  NoToolSupport string
| MaxToolsExceeded string nat nat
| MissingFunctionDeclarations Tool

record tools_validation =
  valid :: "Tool list"
  invalid :: "Tool list"
  warnings :: "tool_warning list"

text \<open>The loop over the tools of \<^verbatim>\<open>validateToolsForModel\<close>.\<close>

fun classify_tools :: "Tool list \<Rightarrow> tools_validation \<Rightarrow> tools_validation" where
  "classify_tools [] acc = acc"
| "classify_tools (tool # tools) acc =
     classify_tools tools
       (case functionDeclarations tool of
          Some (d # ds) \<Rightarrow> acc\<lparr>valid := valid acc @ [tool]\<rparr>
        | _ \<Rightarrow> acc\<lparr>invalid := invalid acc @ [tool],
                   warnings := warnings acc @ [MissingFunctionDeclarations tool]\<rparr>)"

definition validate_tools ::
  "ModelToolCapabilities \<Rightarrow> string \<Rightarrow> Tool list \<Rightarrow> tools_validation"
where
  "validate_tools capabilities modelName tools =
     (if \<not> supportsTools capabilities
      then \<lparr>valid = [], invalid = tools, warnings = [NoToolSupport modelName]\<rparr>
      else
        classify_tools tools
          \<lparr>valid = [], invalid = [],
           warnings =
             (if length tools > maxTools capabilities
              then [MaxToolsExceeded modelName (maxTools capabilities) (length tools)]
              else [])\<rparr>)"

text \<open>
  \<^verbatim>\<open>validateToolsForModel\<close>. On an inherited member \<^verbatim>\<open>capabilities.supportsTools\<close> is
  \<^verbatim>\<open>undefined\<close>, and the first \<^verbatim>\<open>if\<close> returns.
\<close>

definition validateToolsForModel :: "Tool list \<Rightarrow> string \<Rightarrow> tools_validation" where
  "validateToolsForModel tools modelName =
     (case getModelCapabilities modelName of
        Capabilities capabilities \<Rightarrow> validate_tools capabilities modelName tools
      | InheritedMember m \<Rightarrow>
          \<lparr>valid = [], invalid = tools, warnings = [NoToolSupport modelName]\<rparr>)"

definition is_truncation_warning :: "tool_warning \<Rightarrow> bool" where
  "is_truncation_warning w = (case w of MaxToolsExceeded m mx n \<Rightarrow> True | _ \<Rightarrow> False)"


section \<open>Response translation (OllamaResponseTranslator.ts)\<close>

text \<open>
  \<^verbatim>\<open>toolCall.function.name\<close> and \<^verbatim>\<open>toolCall.function.arguments\<close>. The interface declares the
  arguments an object; the translator tests their type, so they are any JSON value here.
\<close>

record OllamaToolCall =
  function_name :: string
  function_arguments :: json

text \<open>
  The interfaces of the message and of the response, with a type parameter at the field
  that holds an object or an array: the value itself in a response taken as a value, a
  reference in the store model. \<open>done_flag\<close> is the field \<^verbatim>\<open>done\<close>.
\<close>

record 'calls message_fields =
  content :: string
  tool_calls :: "'calls option"

record 'msg response_fields =
  model :: string
  created_at :: string
  message :: 'msg
  done_flag :: bool
  done_reason :: "string option"
  total_duration :: "nat option"
  load_duration :: "nat option"
  prompt_eval_count :: "nat option"
  prompt_eval_duration :: "nat option"
  eval_count :: "nat option"
  eval_duration :: "nat option"

type_synonym OllamaMessage = "OllamaToolCall list message_fields"

type_synonym OllamaChatResponse = "OllamaMessage response_fields"

datatype FinishReason = STOP | MAX_TOKENS | OTHER

datatype Part = TextPart string | FunctionCallPart string json

text \<open>
  A candidate of a \<^verbatim>\<open>GenerateContentResponse\<close>, without its constant fields
  (\<^verbatim>\<open>role: 'model'\<close>, \<^verbatim>\<open>index: 0\<close>, \<^verbatim>\<open>safetyRatings: []\<close>).
\<close>

record Candidate =
  parts :: "Part list"
  finishReason :: "FinishReason option"

record UsageMetadata =
  promptTokenCount :: nat
  candidatesTokenCount :: nat
  totalTokenCount :: nat

record GenerateContentResponse =
  candidates :: "Candidate list"
  usageMetadata :: UsageMetadata
  modelVersion :: string

text \<open>
  Why \<^verbatim>\<open>validateToolCallArguments\<close> refused the arguments: \<^verbatim>\<open>JSON.parse\<close> threw, they are
  \<^verbatim>\<open>null\<close>, or they are neither a string nor an object.
\<close>

datatype arguments_error = ParseError | NullArguments | InvalidType js_type

text \<open>
  The warnings of the response translator, one constructor for each message:
  \<^verbatim>\<open>Unknown tool called: ${name}\<close>,
  \<^verbatim>\<open>Invalid JSON in tool call arguments for ${name}: ${errorMessage}\<close>,
  \<^verbatim>\<open>Qwen model used invalid formatting in tool name: ${name}\<close>,
  \<^verbatim>\<open>DeepSeek model may be hallucinating follow-up call: ${name}\<close> and
  \<^verbatim>\<open>Filtered ${hallucinatedToolCalls} hallucinated tool calls from ${modelName}\<close>.
\<close>

datatype response_warning =
  UnknownTool string
| InvalidJson string arguments_error
| QwenFormatting string
| DeepSeekFollowUp string
| FilteredHallucinated nat string

record ResponseTranslationStats =
  totalToolCalls :: nat
  validToolCalls :: nat
  hallucinatedToolCalls :: nat
  invalidJsonCalls :: nat
  unknownToolCalls :: nat
  stat_warnings :: "response_warning list"

text \<open>
  \<^verbatim>\<open>JSON.parse\<close> is a function of the platform: it is the parameter \<open>parse\<close> of the
  functions that call it, \<open>None\<close> when it throws.
\<close>

type_synonym json_parse = "string \<Rightarrow> json option"

fun findRegisteredTool :: "string \<Rightarrow> Tool list \<Rightarrow> Tool option" where
  "findRegisteredTool toolName [] = None"
| "findRegisteredTool toolName (tool # registeredTools) =
     (case functionDeclarations tool of
        Some funcs \<Rightarrow>
          if list_ex (\<lambda>func. fd_name func = Some toolName) funcs then Some tool
          else findRegisteredTool toolName registeredTools
      | None \<Rightarrow> findRegisteredTool toolName registeredTools)"

text \<open>The first component is the result, the second the statistics after the call.\<close>

definition validateToolCallArguments ::
  "json_parse \<Rightarrow> OllamaToolCall \<Rightarrow> ResponseTranslationStats \<Rightarrow> bool \<times> ResponseTranslationStats"
where
  "validateToolCallArguments parse toolCall stats =
     (let arguments = function_arguments toolCall;
          thrown =
            (case arguments of
               JStr text \<Rightarrow> (case parse text of Some v \<Rightarrow> None | None \<Rightarrow> Some ParseError)
             | JNull \<Rightarrow> Some NullArguments
             | JArr xs \<Rightarrow> None
             | JObj kvs \<Rightarrow> None
             | v \<Rightarrow> Some (InvalidType (typeof v)))
      in case thrown of
           None \<Rightarrow> (True, stats)
         | Some e \<Rightarrow>
             (False,
              stats\<lparr>invalidJsonCalls := invalidJsonCalls stats + 1,
                    stat_warnings :=
                      stat_warnings stats @ [InvalidJson (function_name toolCall) e]\<rparr>))"

definition validateForModelSpecificRequirements ::
  "OllamaToolCall \<Rightarrow> table_value \<Rightarrow> ResponseTranslationStats \<Rightarrow> bool \<times> ResponseTranslationStats"
where
  "validateForModelSpecificRequirements toolCall capabilities stats =
     (if customParser_of capabilities = Some ''qwen3coder''
         \<and> (str_includes (function_name toolCall) ''<''
              \<or> str_includes (function_name toolCall) ''>'')
      then (False,
            stats\<lparr>stat_warnings :=
                    stat_warnings stats @ [QwenFormatting (function_name toolCall)]\<rparr>)
      else if multiTurnSupport_of capabilities = Some Poor
         \<and> (str_includes (toLowerCase (function_name toolCall)) ''follow''
              \<or> str_includes (toLowerCase (function_name toolCall)) ''next'')
      then (False,
            stats\<lparr>stat_warnings :=
                    stat_warnings stats @ [DeepSeekFollowUp (function_name toolCall)]\<rparr>)
      else (True, stats))"

definition isValidToolCall ::
  "json_parse \<Rightarrow> OllamaToolCall \<Rightarrow> table_value \<Rightarrow> Tool list \<Rightarrow> ResponseTranslationStats \<Rightarrow>
   bool \<times> ResponseTranslationStats"
where
  "isValidToolCall parse toolCall capabilities registeredTools stats =
     (case findRegisteredTool (function_name toolCall) registeredTools of
        None \<Rightarrow>
          (False,
           stats\<lparr>unknownToolCalls := unknownToolCalls stats + 1,
                 stat_warnings :=
                   stat_warnings stats @ [UnknownTool (function_name toolCall)]\<rparr>)
      | Some toolExists \<Rightarrow>
          (case validateToolCallArguments parse toolCall stats of
             (False, stats1) \<Rightarrow> (False, stats1)
           | (True, stats1) \<Rightarrow>
               validateForModelSpecificRequirements toolCall capabilities stats1))"

text \<open>
  \<^verbatim>\<open>tool_calls.filter(call => this.isValidToolCall(call, ...))\<close>: the calls kept, in their
  order, and the statistics after the last call.
\<close>

fun filter_calls ::
  "json_parse \<Rightarrow> table_value \<Rightarrow> Tool list \<Rightarrow> OllamaToolCall list \<Rightarrow> ResponseTranslationStats \<Rightarrow>
   OllamaToolCall list \<times> ResponseTranslationStats"
where
  "filter_calls parse capabilities registeredTools [] stats = ([], stats)"
| "filter_calls parse capabilities registeredTools (call # calls) stats =
     (case isValidToolCall parse call capabilities registeredTools stats of
        (keep, stats1) \<Rightarrow>
          (case filter_calls parse capabilities registeredTools calls stats1 of
             (kept, stats2) \<Rightarrow> (if keep then call # kept else kept, stats2)))"

definition processQwenCoderArguments :: "json \<Rightarrow> json" where
  "processQwenCoderArguments args =
     (case args of
        JNull \<Rightarrow> args
      | JBool b \<Rightarrow> args
      | JNum n \<Rightarrow> args
      | JStr s \<Rightarrow> args
      | _ \<Rightarrow>
          (case get_property args ''parameters'' of
             Some (JObj kvs) \<Rightarrow> JObj kvs
           | Some (JArr xs) \<Rightarrow> JArr xs
           | _ \<Rightarrow>
               (case get_property args ''arguments'' of
                  Some (JObj kvs) \<Rightarrow> JObj kvs
                | Some (JArr xs) \<Rightarrow> JArr xs
                | _ \<Rightarrow> args)))"

text \<open>\<^verbatim>\<open>convertToolCallToFunctionCall\<close>; \<open>None\<close> is its \<^verbatim>\<open>null\<close>.\<close>

definition convertToolCallToFunctionCall ::
  "json_parse \<Rightarrow> OllamaToolCall \<Rightarrow> table_value \<Rightarrow> Part option"
where
  "convertToolCallToFunctionCall parse toolCall capabilities =
     (case (case function_arguments toolCall of JStr text \<Rightarrow> parse text | v \<Rightarrow> Some v) of
        None \<Rightarrow> None
      | Some args \<Rightarrow>
          Some (FunctionCallPart (function_name toolCall)
                  (if customParser_of capabilities = Some ''qwen3coder''
                   then processQwenCoderArguments args else args)))"

definition count_or_zero :: "nat option \<Rightarrow> nat" where
  "count_or_zero n = (case n of Some k \<Rightarrow> k | None \<Rightarrow> 0)"

text \<open>
  \<^verbatim>\<open>convertToGeminiFormat\<close>; its parameter \<^verbatim>\<open>stats\<close> is not used by its body and is not a
  parameter here.
\<close>

definition convertToGeminiFormat ::
  "json_parse \<Rightarrow> OllamaChatResponse \<Rightarrow> table_value \<Rightarrow> GenerateContentResponse"
where
  "convertToGeminiFormat parse response capabilities =
     (let text_parts =
            (if content (message response) \<noteq> [] \<and> trim (content (message response)) \<noteq> []
             then [TextPart (content (message response))] else []);
          call_parts =
            (case tool_calls (message response) of
               Some calls \<Rightarrow>
                 List.map_filter
                   (\<lambda>toolCall. convertToolCallToFunctionCall parse toolCall capabilities) calls
             | None \<Rightarrow> []);
          ps = text_parts @ call_parts
      in \<lparr>candidates =
            [\<lparr>parts = (if ps = [] then [TextPart []] else ps),
              finishReason = (if done_flag response then Some STOP else None)\<rparr>],
          usageMetadata =
            \<lparr>promptTokenCount = count_or_zero (prompt_eval_count response),
             candidatesTokenCount = count_or_zero (eval_count response),
             totalTokenCount =
               count_or_zero (prompt_eval_count response) + count_or_zero (eval_count response)\<rparr>,
          modelVersion = model response\<rparr>)"

definition empty_stats :: ResponseTranslationStats where
  "empty_stats =
     \<lparr>totalToolCalls = 0, validToolCalls = 0, hallucinatedToolCalls = 0,
      invalidJsonCalls = 0, unknownToolCalls = 0, stat_warnings = []\<rparr>"

text \<open>
  The statements of \<^verbatim>\<open>validateAndTranslateResponse\<close> between the filter and the
  conversion: the counts of valid and hallucinated calls and the warning.
\<close>

definition record_filtered ::
  "ResponseTranslationStats \<Rightarrow> nat \<Rightarrow> string \<Rightarrow> ResponseTranslationStats"
where
  "record_filtered stats validCount modelName =
     (let hallucinated = totalToolCalls stats - validCount;
          stats = stats\<lparr>validToolCalls := validCount, hallucinatedToolCalls := hallucinated\<rparr>
      in if hallucinated > 0
         then stats\<lparr>stat_warnings :=
                      stat_warnings stats @ [FilteredHallucinated hallucinated modelName]\<rparr>
         else stats)"

text \<open>
  \<^verbatim>\<open>validateAndTranslateResponse\<close> on the value of the response. The copy
  \<^verbatim>\<open>JSON.parse(JSON.stringify(response))\<close> has the value of the response; the objects it
  allocates are the subject of the store model below.
\<close>

definition validateAndTranslateResponse ::
  "json_parse \<Rightarrow> OllamaChatResponse \<Rightarrow> string \<Rightarrow> Tool list \<Rightarrow>
   GenerateContentResponse \<times> ResponseTranslationStats"
where
  "validateAndTranslateResponse parse response modelName registeredTools =
     (let capabilities = getModelCapabilities modelName;
          validatedResponse = response
      in case tool_calls (message validatedResponse) of
           None \<Rightarrow> (convertToGeminiFormat parse validatedResponse capabilities, empty_stats)
         | Some calls \<Rightarrow>
             (case filter_calls parse capabilities registeredTools calls
                     (empty_stats\<lparr>totalToolCalls := length calls\<rparr>) of
                (validCalls, stats) \<Rightarrow>
                  let validatedResponse =
                        validatedResponse
                          \<lparr>message := (message validatedResponse)\<lparr>tool_calls := Some validCalls\<rparr>\<rparr>
                  in (convertToGeminiFormat parse validatedResponse capabilities,
                      record_filtered stats (length validCalls) modelName)))"


section \<open>The response as objects of a store\<close>

text \<open>
  The response the translator receives is an object that refers to its message object,
  which refers to the array of its tool calls, which refers to the tool call objects. The
  store is the list of the objects allocated so far; a reference is a position in it, and
  an allocation appends. No statement of the translator writes to a tool call object or
  into its arguments, so a tool call object holds its name and arguments as a value.
\<close>

type_synonym addr = nat

datatype cell =
  ResponseObject "addr response_fields"
| MessageObject "addr message_fields"
| ArrayObject "addr list"
| ToolCallObject OllamaToolCall

type_synonym store = "cell list"

definition lookup :: "store \<Rightarrow> addr \<Rightarrow> cell option" where
  "lookup h a = (if a < length h then Some (h ! a) else None)"

definition alloc :: "store \<Rightarrow> cell \<Rightarrow> store \<times> addr" where
  "alloc h c = (h @ [c], length h)"

text \<open>
  The value of the object graph at a reference, as \<^verbatim>\<open>JSON.stringify\<close> walks it; \<open>None\<close>
  when a reference does not lead to an object of the declared kind.
\<close>

fun read_tool_calls :: "store \<Rightarrow> addr list \<Rightarrow> OllamaToolCall list option" where
  "read_tool_calls h [] = Some []"
| "read_tool_calls h (a # as) =
     (case lookup h a of
        Some (ToolCallObject call) \<Rightarrow>
          (case read_tool_calls h as of Some calls \<Rightarrow> Some (call # calls) | None \<Rightarrow> None)
      | _ \<Rightarrow> None)"

definition read_message :: "store \<Rightarrow> addr \<Rightarrow> OllamaMessage option" where
  "read_message h a =
     (case lookup h a of
        Some (MessageObject m) \<Rightarrow>
          (case tool_calls m of
             None \<Rightarrow> Some \<lparr>content = content m, tool_calls = None\<rparr>
           | Some arr \<Rightarrow>
               (case lookup h arr of
                  Some (ArrayObject refs) \<Rightarrow>
                    (case read_tool_calls h refs of
                       Some calls \<Rightarrow> Some \<lparr>content = content m, tool_calls = Some calls\<rparr>
                     | None \<Rightarrow> None)
                | _ \<Rightarrow> None))
      | _ \<Rightarrow> None)"

definition with_message :: "'a response_fields \<Rightarrow> 'b \<Rightarrow> 'b response_fields" where
  "with_message r m =
     \<lparr>model = model r, created_at = created_at r, message = m, done_flag = done_flag r,
      done_reason = done_reason r, total_duration = total_duration r,
      load_duration = load_duration r, prompt_eval_count = prompt_eval_count r,
      prompt_eval_duration = prompt_eval_duration r, eval_count = eval_count r,
      eval_duration = eval_duration r\<rparr>"

definition read_response :: "store \<Rightarrow> addr \<Rightarrow> OllamaChatResponse option" where
  "read_response h a =
     (case lookup h a of
        Some (ResponseObject r) \<Rightarrow>
          (case read_message h (message r) of
             Some m \<Rightarrow> Some (with_message r m)
           | None \<Rightarrow> None)
      | _ \<Rightarrow> None)"

text \<open>The objects \<^verbatim>\<open>JSON.parse\<close> builds for a value, each one allocated.\<close>

fun alloc_tool_calls :: "store \<Rightarrow> OllamaToolCall list \<Rightarrow> store \<times> addr list" where
  "alloc_tool_calls h [] = (h, [])"
| "alloc_tool_calls h (call # calls) =
     (case alloc h (ToolCallObject call) of
        (h1, a) \<Rightarrow> (case alloc_tool_calls h1 calls of (h2, as) \<Rightarrow> (h2, a # as)))"

definition alloc_message :: "store \<Rightarrow> OllamaMessage \<Rightarrow> store \<times> addr" where
  "alloc_message h m =
     (case tool_calls m of
        None \<Rightarrow> alloc h (MessageObject \<lparr>content = content m, tool_calls = None\<rparr>)
      | Some calls \<Rightarrow>
          (case alloc_tool_calls h calls of
             (h1, refs) \<Rightarrow>
               (case alloc h1 (ArrayObject refs) of
                  (h2, arr) \<Rightarrow>
                    alloc h2 (MessageObject \<lparr>content = content m, tool_calls = Some arr\<rparr>))))"

definition alloc_response :: "store \<Rightarrow> OllamaChatResponse \<Rightarrow> store \<times> addr" where
  "alloc_response h r =
     (case alloc_message h (message r) of
        (h1, m) \<Rightarrow> alloc h1 (ResponseObject (with_message r m)))"

text \<open>\<^verbatim>\<open>JSON.parse(JSON.stringify(response))\<close>\<close>

definition clone :: "store \<Rightarrow> addr \<Rightarrow> (store \<times> addr) option" where
  "clone h response =
     (case read_response h response of
        Some v \<Rightarrow> Some (alloc_response h v)
      | None \<Rightarrow> None)"

text \<open>
  The filter over the array of the copy: the references kept, in their order, and the
  statistics after the last call.
\<close>

fun filter_refs ::
  "json_parse \<Rightarrow> store \<Rightarrow> table_value \<Rightarrow> Tool list \<Rightarrow> addr list \<Rightarrow> ResponseTranslationStats \<Rightarrow>
   (addr list \<times> ResponseTranslationStats) option"
where
  "filter_refs parse h capabilities registeredTools [] stats = Some ([], stats)"
| "filter_refs parse h capabilities registeredTools (a # as) stats =
     (case lookup h a of
        Some (ToolCallObject call) \<Rightarrow>
          (case isValidToolCall parse call capabilities registeredTools stats of
             (keep, stats1) \<Rightarrow>
               (case filter_refs parse h capabilities registeredTools as stats1 of
                  Some (kept, stats2) \<Rightarrow> Some (if keep then a # kept else kept, stats2)
                | None \<Rightarrow> None))
      | _ \<Rightarrow> None)"

text \<open>
  \<^verbatim>\<open>validateAndTranslateResponse\<close> on the store: the response is a reference, every read
  and write of the source is a read and write of the store, and the result carries the
  store after the call. \<open>None\<close> when the graph at the reference is not a response.
\<close>

definition validateAndTranslateResponse_store ::
  "json_parse \<Rightarrow> store \<Rightarrow> addr \<Rightarrow> string \<Rightarrow> Tool list \<Rightarrow>
   (GenerateContentResponse \<times> ResponseTranslationStats \<times> store) option"
where
  "validateAndTranslateResponse_store parse h response modelName registeredTools =
     (let capabilities = getModelCapabilities modelName in
      case clone h response of
        None \<Rightarrow> None
      | Some (h1, validatedResponse) \<Rightarrow>
          (case lookup h1 validatedResponse of
             Some (ResponseObject r) \<Rightarrow>
               (case lookup h1 (message r) of
                  Some (MessageObject m) \<Rightarrow>
                    (case tool_calls m of
                       None \<Rightarrow>
                         (case read_response h1 validatedResponse of
                            Some v \<Rightarrow>
                              Some (convertToGeminiFormat parse v capabilities, empty_stats, h1)
                          | None \<Rightarrow> None)
                     | Some arr \<Rightarrow>
                         (case lookup h1 arr of
                            Some (ArrayObject refs) \<Rightarrow>
                              (case filter_refs parse h1 capabilities registeredTools refs
                                      (empty_stats\<lparr>totalToolCalls := length refs\<rparr>) of
                                 Some (validRefs, stats) \<Rightarrow>
                                   (case alloc h1 (ArrayObject validRefs) of
                                      (h2, validCalls) \<Rightarrow>
                                        let h3 = h2[message r :=
                                                   MessageObject (m\<lparr>tool_calls := Some validCalls\<rparr>)]
                                        in (case read_response h3 validatedResponse of
                                              Some v \<Rightarrow>
                                                Some (convertToGeminiFormat parse v capabilities,
                                                      record_filtered stats (length validRefs) modelName,
                                                      h3)
                                            | None \<Rightarrow> None))
                               | None \<Rightarrow> None)
                          | _ \<Rightarrow> None))
                | _ \<Rightarrow> None)
           | _ \<Rightarrow> None))"


section \<open>The client: streaming and retries (ollamaClient.ts, in tool\_support.md)\<close>

text \<open>\<^verbatim>\<open>convertFromOllamaResponse\<close> of the client.\<close>

definition convertFromOllamaResponse :: "OllamaChatResponse \<Rightarrow> GenerateContentResponse" where
  "convertFromOllamaResponse response =
     (let text_parts =
            (if content (message response) \<noteq> []
             then [TextPart (content (message response))] else []);
          call_parts =
            (case tool_calls (message response) of
               Some calls \<Rightarrow>
                 map (\<lambda>toolCall.
                        FunctionCallPart (function_name toolCall) (function_arguments toolCall))
                   calls
             | None \<Rightarrow> []);
          ps = text_parts @ call_parts
      in \<lparr>candidates =
            [\<lparr>parts = (if length ps > 0 then ps else [TextPart []]),
              finishReason = (if done_flag response then Some STOP else None)\<rparr>],
          usageMetadata =
            \<lparr>promptTokenCount = count_or_zero (prompt_eval_count response),
             candidatesTokenCount = count_or_zero (eval_count response),
             totalTokenCount =
               count_or_zero (prompt_eval_count response) + count_or_zero (eval_count response)\<rparr>,
          modelVersion = model response\<rparr>)"

definition line_feed :: char where
  "line_feed = CHR 0x0A"

text \<open>\<^verbatim>\<open>text.split('\n')\<close>: the text up to its first line feed, then the pieces of the rest.\<close>

function split_lines :: "string \<Rightarrow> string list" where
  "split_lines text =
     takeWhile (\<lambda>c. c \<noteq> line_feed) text #
       (case dropWhile (\<lambda>c. c \<noteq> line_feed) text of
          [] \<Rightarrow> []
        | c # rest \<Rightarrow> split_lines rest)"
  by pat_completeness auto
termination
proof (relation "measure length")
  fix s :: string and c rest
  assume "dropWhile (\<lambda>c. c \<noteq> line_feed) s = c # rest"
  then have "length (c # rest) \<le> length s"
    using length_dropWhile_le [of "\<lambda>c. c \<noteq> line_feed" s] by simp
  then show "(rest, s) \<in> measure length" by simp
qed simp

declare split_lines.simps [simp del]

text \<open>
  What the body of the \<^verbatim>\<open>try\<close> block gives for a line: the line decoded by \<^verbatim>\<open>JSON.parse\<close>
  as a value of the declared type \<^verbatim>\<open>OllamaStreamResponse\<close>, or \<open>None\<close> when the block
  throws before its \<^verbatim>\<open>yield\<close>. \<^verbatim>\<open>JSON.parse\<close> is a function of the platform: the decoder is
  a parameter.
\<close>

type_synonym frame_parse = "string \<Rightarrow> OllamaChatResponse option"

text \<open>
  What the generator does, in order: a response it yields, or the warning
  \<^verbatim>\<open>Failed to parse streaming response line\<close> it logs for a line.
\<close>

datatype stream_event = Yielded GenerateContentResponse | ParseWarning string

text \<open>
  The loop over the lines of one read. The second component tells whether the generator
  returned (after a frame with \<^verbatim>\<open>done\<close>).
\<close>

fun process_lines :: "frame_parse \<Rightarrow> string list \<Rightarrow> stream_event list \<times> bool" where
  "process_lines parse [] = ([], False)"
| "process_lines parse (line # lines) =
     (if trim line = [] then process_lines parse lines
      else
        (case parse line of
           Some streamResponse \<Rightarrow>
             if done_flag streamResponse
             then ([Yielded (convertFromOllamaResponse streamResponse)], True)
             else
               (case process_lines parse lines of
                  (events, returned) \<Rightarrow>
                    (Yielded (convertFromOllamaResponse streamResponse) # events, returned))
         | None \<Rightarrow>
             (case process_lines parse lines of
                (events, returned) \<Rightarrow> (ParseWarning line # events, returned))))"

text \<open>
  The loop over the reads, from the reader on: \<open>chunks\<close> are the decoded texts of the
  reads before the reader reports its end, \<open>buffer\<close> the incomplete last line.
\<close>

fun read_loop :: "frame_parse \<Rightarrow> string \<Rightarrow> string list \<Rightarrow> stream_event list" where
  "read_loop parse buffer [] = []"
| "read_loop parse buffer (chunk # chunks) =
     (let lines = split_lines (buffer @ chunk);
          buffer = last lines;
          lines = butlast lines
      in case process_lines parse lines of
           (events, returned) \<Rightarrow>
             if returned then events else events @ read_loop parse buffer chunks)"

definition generateContentStream :: "frame_parse \<Rightarrow> string list \<Rightarrow> stream_event list" where
  "generateContentStream parse chunks = read_loop parse [] chunks"

text \<open>The responses yielded, in order.\<close>

definition yielded :: "stream_event list \<Rightarrow> GenerateContentResponse list" where
  "yielded events = List.map_filter (\<lambda>e. case e of Yielded r \<Rightarrow> Some r | _ \<Rightarrow> None) events"

text \<open>The finish reason a yielded response carries, if any.\<close>

definition finish_reason_of :: "GenerateContentResponse \<Rightarrow> FinishReason option" where
  "finish_reason_of r = (case candidates r of c # cs \<Rightarrow> finishReason c | [] \<Rightarrow> None)"

text \<open>
  One attempt of \<^verbatim>\<open>makeRequest\<close> as the outside world decides it: \<^verbatim>\<open>fetch\<close> throws (a
  network error or the timeout), or it gives a response with a status, a status text and
  a body, which is \<open>None\<close> when \<^verbatim>\<open>response.json()\<close> throws.
\<close>

datatype 'a attempt_outcome = FetchThrows string | HttpResponse nat string "'a option"

datatype request_error =
  FetchFailure string
| ApiRequestFailed nat string
| BodyNotJson
| FailedAfterAttempts nat request_error
| UnexpectedError

text \<open>
  The body of the \<^verbatim>\<open>try\<close> block: the value it returns, or the error it throws.
  \<^verbatim>\<open>response.ok\<close> is a status from 200 to 299.
\<close>

definition try_attempt :: "'a attempt_outcome \<Rightarrow> request_error + 'a" where
  "try_attempt outcome =
     (case outcome of
        FetchThrows e \<Rightarrow> Inl (FetchFailure e)
      | HttpResponse status statusText body \<Rightarrow>
          if 200 \<le> status \<and> status \<le> 299
          then (case body of Some v \<Rightarrow> Inr v | None \<Rightarrow> Inl BodyNotJson)
          else Inl (ApiRequestFailed status statusText))"

text \<open>
  A run of \<^verbatim>\<open>makeRequest\<close>: its result, the number of calls of \<^verbatim>\<open>fetch\<close>, and the delays it
  waited, in milliseconds and in order.
\<close>

record 'a request_run =
  result :: "request_error + 'a"
  attempts :: nat
  delays :: "nat list"

text \<open>
  The loop of \<^verbatim>\<open>makeRequest\<close>. \<open>server k\<close> is what the attempt with index \<open>k\<close> meets;
  \<open>maxRetries\<close> is a natural number (the configuration is refused when it is negative).
\<close>

function makeRequest_loop ::
  "(nat \<Rightarrow> 'a attempt_outcome) \<Rightarrow> nat \<Rightarrow> nat \<Rightarrow> nat list \<Rightarrow> 'a request_run"
where
  "makeRequest_loop server maxRetries attempt waited =
     (if attempt \<le> maxRetries then
        (case try_attempt (server attempt) of
           Inr v \<Rightarrow> \<lparr>result = Inr v, attempts = attempt + 1, delays = waited\<rparr>
         | Inl error \<Rightarrow>
             if attempt = maxRetries
             then \<lparr>result = Inl (FailedAfterAttempts (maxRetries + 1) error),
                   attempts = attempt + 1, delays = waited\<rparr>
             else
               let delay = min (1000 * 2 ^ attempt) 10000
               in makeRequest_loop server maxRetries (attempt + 1) (waited @ [delay]))
      else \<lparr>result = Inl UnexpectedError, attempts = attempt, delays = waited\<rparr>)"
  by pat_completeness auto
termination
  by (relation "measure (\<lambda>(server, maxRetries, attempt, waited). Suc maxRetries - attempt)") auto

declare makeRequest_loop.simps [simp del]

definition makeRequest :: "(nat \<Rightarrow> 'a attempt_outcome) \<Rightarrow> nat \<Rightarrow> 'a request_run" where
  "makeRequest server maxRetries = makeRequest_loop server maxRetries 0 []"

section \<open>The resolution order in the words of the specification\<close>

text \<open>
  The specification's steps (a) to (d) for a model id, written with the library's
  \<^const>\<open>map_of\<close> and \<^const>\<open>find\<close> on the table. In \<open>resolution_as_claimed\<close> the family
  match of step (c) tests the normalized id in both directions, as the specification
  says. In \<open>resolution_order\<close> it tests whether the id as given contains a key, or a key
  contains the normalized id.
\<close>

definition family_by_normalized_id :: "string \<Rightarrow> ModelToolCapabilities option" where
  "family_by_normalized_id normalizedName =
     map_option snd
       (find (\<lambda>(key, c). str_includes normalizedName key \<or> str_includes key normalizedName)
          MODEL_CAPABILITIES)"

definition resolution_as_claimed :: "string \<Rightarrow> ModelToolCapabilities" where
  "resolution_as_claimed modelName =
     (case map_of MODEL_CAPABILITIES modelName of
        Some c \<Rightarrow> c
      | None \<Rightarrow>
          (case map_of MODEL_CAPABILITIES (normalizeModelName modelName) of
             Some c \<Rightarrow> c
           | None \<Rightarrow>
               (case family_by_normalized_id (normalizeModelName modelName) of
                  Some c \<Rightarrow> c
                | None \<Rightarrow> DEFAULT_MODEL_CAPABILITIES)))"

definition family_by_raw_and_normalized_id :: "string \<Rightarrow> ModelToolCapabilities option" where
  "family_by_raw_and_normalized_id modelName =
     map_option snd
       (find (\<lambda>(key, c). str_includes modelName key
                         \<or> str_includes key (normalizeModelName modelName))
          MODEL_CAPABILITIES)"

definition resolution_order :: "string \<Rightarrow> ModelToolCapabilities" where
  "resolution_order modelName =
     (case map_of MODEL_CAPABILITIES modelName of
        Some c \<Rightarrow> c
      | None \<Rightarrow>
          (case map_of MODEL_CAPABILITIES (normalizeModelName modelName) of
             Some c \<Rightarrow> c
           | None \<Rightarrow>
               (case family_by_raw_and_normalized_id modelName of
                  Some c \<Rightarrow> c
                | None \<Rightarrow> DEFAULT_MODEL_CAPABILITIES)))"

section \<open>Tools with several function declarations\<close>

text \<open>A tool cut down to the first of its function declarations.\<close>

definition first_declaration_only :: "Tool \<Rightarrow> Tool" where
  "first_declaration_only tool =
     tool\<lparr>functionDeclarations := map_option (take 1) (functionDeclarations tool)\<rparr>"

section \<open>Values of the examples\<close>

definition function_declaration :: "string \<Rightarrow> FunctionDeclaration" where
  "function_declaration name =
     \<lparr>fd_name = Some name, fd_description = Some ''Search the files'', fd_parameters = None\<rparr>"

text \<open>A tool that declares the one function \<open>name\<close>.\<close>

definition tool_declaring :: "string \<Rightarrow> Tool" where
  "tool_declaring name = \<lparr>functionDeclarations = Some [function_declaration name], other_fields = []\<rparr>"

text \<open>A tool that declares two functions.\<close>

definition search_and_fetch :: Tool where
  "search_and_fetch =
     \<lparr>functionDeclarations = Some [function_declaration ''search'', function_declaration ''fetch''],
      other_fields = []\<rparr>"

section \<open>Registered names and emitted calls\<close>

text \<open>
  \<open>name\<close> is the name of a function declaration of a tool of the list: the existence
  check in the words of the specification.
\<close>

definition is_registered :: "string \<Rightarrow> Tool list \<Rightarrow> bool" where
  "is_registered name registeredTools =
     list_ex (\<lambda>tool. case functionDeclarations tool of
                       Some funcs \<Rightarrow> list_ex (\<lambda>func. fd_name func = Some name) funcs
                     | None \<Rightarrow> False)
       registeredTools"

text \<open>The tool calls of a translated response, as pairs of name and arguments, in order.\<close>

definition function_calls :: "GenerateContentResponse \<Rightarrow> (string \<times> json) list" where
  "function_calls out =
     List.map_filter (\<lambda>p. case p of FunctionCallPart name args \<Rightarrow> Some (name, args) | _ \<Rightarrow> None)
       (concat (map parts (candidates out)))"

text \<open>The tool calls of a backend response; none when it has no \<^verbatim>\<open>tool_calls\<close>.\<close>

definition calls_of :: "OllamaChatResponse \<Rightarrow> OllamaToolCall list" where
  "calls_of response = (case tool_calls (message response) of Some calls \<Rightarrow> calls | None \<Rightarrow> [])"

text \<open>
  The arguments of a call as structured data: the value of a string that parses, or the
  arguments themselves when they are an object (or array) and not \<^verbatim>\<open>null\<close>.
\<close>

definition structured_arguments :: "json_parse \<Rightarrow> OllamaToolCall \<Rightarrow> json option" where
  "structured_arguments parse call =
     (case function_arguments call of
        JStr s \<Rightarrow> parse s
      | JObj kvs \<Rightarrow> Some (JObj kvs)
      | JArr xs \<Rightarrow> Some (JArr xs)
      | _ \<Rightarrow> None)"

text \<open>
  The name of a call passes the model-specific rules: no angle bracket for the parser
  \<^verbatim>\<open>qwen3coder\<close>, and neither \<^verbatim>\<open>follow\<close> nor \<^verbatim>\<open>next\<close>, in any case of letters, for a model
  whose multi-turn support is poor.
\<close>

definition passes_model_rules :: "table_value \<Rightarrow> string \<Rightarrow> bool" where
  "passes_model_rules capabilities name =
     (\<not> (customParser_of capabilities = Some ''qwen3coder''
          \<and> (str_includes name ''<'' \<or> str_includes name ''>''))
      \<and> \<not> (multiTurnSupport_of capabilities = Some Poor
          \<and> (str_includes (toLowerCase name) ''follow''
               \<or> str_includes (toLowerCase name) ''next'')))"

text \<open>
  \<^verbatim>\<open>JSON.parse\<close> at the texts of the examples: \<^verbatim>\<open>{}\<close> is the empty object, and the other
  text the examples use, \<^verbatim>\<open>not-json\<close>, is no JSON text.
\<close>

definition example_parse :: json_parse where
  "example_parse s = (if s = ''{}'' then Some (JObj []) else None)"

text \<open>A backend response with the given text and tool calls.\<close>

definition example_response :: "string \<Rightarrow> OllamaToolCall list option \<Rightarrow> bool \<Rightarrow> OllamaChatResponse" where
  "example_response text calls finished =
     \<lparr>model = ''example'', created_at = ''2025-01-01T00:00:00Z'',
      message = \<lparr>content = text, tool_calls = calls\<rparr>, done_flag = finished,
      done_reason = None, total_duration = None, load_duration = None,
      prompt_eval_count = Some 3, prompt_eval_duration = None, eval_count = Some 5,
      eval_duration = None\<rparr>"

definition example_call :: "string \<Rightarrow> json \<Rightarrow> OllamaToolCall" where
  "example_call name args = \<lparr>function_name = name, function_arguments = args\<rparr>"

section \<open>The filter and the conversion, call by call\<close>

text \<open>The three checks of \<^verbatim>\<open>isValidToolCall\<close> as one condition on a call.\<close>

definition accepted :: "json_parse \<Rightarrow> table_value \<Rightarrow> Tool list \<Rightarrow> OllamaToolCall \<Rightarrow> bool" where
  "accepted parse capabilities tools call =
     (is_registered (function_name call) tools
      \<and> structured_arguments parse call \<noteq> None
      \<and> passes_model_rules capabilities (function_name call))"

text \<open>
  The pair a call is converted to: its name, and its structured arguments, unwrapped by
  \<^verbatim>\<open>processQwenCoderArguments\<close> for the parser \<^verbatim>\<open>qwen3coder\<close>.
\<close>

definition emitted :: "json_parse \<Rightarrow> table_value \<Rightarrow> OllamaToolCall \<Rightarrow> (string \<times> json) option" where
  "emitted parse capabilities call =
     map_option
       (\<lambda>args. (function_name call,
                 if customParser_of capabilities = Some ''qwen3coder''
                 then processQwenCoderArguments args else args))
       (structured_arguments parse call)"

definition call_pair :: "Part \<Rightarrow> (string \<times> json) option" where
  "call_pair p = (case p of FunctionCallPart name args \<Rightarrow> Some (name, args) | _ \<Rightarrow> None)"

text \<open>
  A store that holds one response, at the reference 4, with a message at 3, the array of
  its tool calls at 2, and two tool calls: one of a registered tool and one of a tool
  that is not registered.
\<close>

definition example_store :: store where
  "example_store =
     [ToolCallObject (example_call ''search'' (JStr ''{}'')),
      ToolCallObject (example_call ''unregistered_fn'' (JObj [])),
      ArrayObject [0, 1],
      MessageObject \<lparr>content = ''Searching'', tool_calls = Some 2\<rparr>,
      ResponseObject (with_message (example_response [] None True) 3)]"

section \<open>The backoff in the words of the specification\<close>

text \<open>
  The delay before the retry that follows the attempt with index \<open>attempt\<close>:
  \<open>min (base * 2 ^ attempt) ceiling\<close> with the base 1000 ms and the ceiling 10000 ms.
\<close>

definition backoff_delay :: "nat \<Rightarrow> nat" where
  "backoff_delay attempt = min (1000 * 2 ^ attempt) 10000"

text \<open>An attempt fails: the \<^verbatim>\<open>try\<close> block throws.\<close>

definition attempt_fails :: "'a attempt_outcome \<Rightarrow> bool" where
  "attempt_fails outcome = (case try_attempt outcome of Inl e \<Rightarrow> True | Inr v \<Rightarrow> False)"


text \<open>A server that answers the status 503 to the first \<open>n\<close> attempts and 200 after them.\<close>

definition failing_first :: "nat \<Rightarrow> nat \<Rightarrow> json attempt_outcome" where
  "failing_first n attempt =
     (if attempt < n then HttpResponse 503 ''Service Unavailable'' None
      else HttpResponse 200 ''OK'' (Some (JObj [])))"

section \<open>The frames of the streaming examples\<close>

definition quoted :: "string \<Rightarrow> string" where
  "quoted s = CHR 0x22 # s @ [CHR 0x22]"

text \<open>The line of a frame with the text \<open>text\<close> and the completion flag \<open>finished\<close>.\<close>

definition frame_line :: "string \<Rightarrow> bool \<Rightarrow> string" where
  "frame_line text finished =
     ''{'' @ quoted ''model'' @ '':'' @ quoted ''example'' @ '','' @
     quoted ''created_at'' @ '':'' @ quoted ''2025-01-01T00:00:00Z'' @ '','' @
     quoted ''message'' @ '':{'' @ quoted ''role'' @ '':'' @ quoted ''assistant'' @ '','' @
     quoted ''content'' @ '':'' @ quoted text @ ''},'' @
     quoted ''done'' @ '':'' @ (if finished then ''true'' else ''false'') @ '','' @
     quoted ''prompt_eval_count'' @ '':3,'' @ quoted ''eval_count'' @ '':5}''"


text \<open>
  The decoding of the lines of the examples: the frames with the texts \<^verbatim>\<open>Hel\<close> (not
  finished) and \<^verbatim>\<open>lo\<close> (finished) decode to their responses; the truncated line, the one
  other line the examples use, does not decode.
\<close>

definition example_frame_parse :: frame_parse where
  "example_frame_parse s =
     (if s = frame_line ''Hel'' False then Some (example_response ''Hel'' None False)
      else if s = frame_line ''lo'' True then Some (example_response ''lo'' None True)
      else None)"

text \<open>The body of a stream: every line followed by a line feed.\<close>

definition stream_body :: "string list \<Rightarrow> string" where
  "stream_body lines = concat (map (\<lambda>l. l @ [line_feed]) lines)"

section \<open>Evaluation\<close>

lemmas string_eval =
  normalizeModelName_def toLowerCase_def lower_char_def upper_lower_def strip_size_def
  strip_suffix_def is_digit_def startsWith_def

lemmas table_eval =
  getModelCapabilities_def table_get_def MODEL_CAPABILITIES_def Object_prototype_keys_def caps_def

section \<open>Capability lookup\<close>

lemma family_match_find:
  "family_match modelName normalizedName entries =
     map_option snd
       (find (\<lambda>(key, c). str_includes modelName key \<or> str_includes key normalizedName) entries)"
proof (induction entries)
  case Nil
  show ?case by simp
next
  case (Cons entry entries)
  obtain key c where entry: "entry = (key, c)" by (cases entry)
  show ?case
    by (cases "str_includes modelName key \<or> str_includes key normalizedName")
       (simp_all add: entry Cons.IH)
qed

lemma getModelCapabilities_resolution:
  assumes "modelName \<notin> set Object_prototype_keys"
    and "normalizeModelName modelName \<notin> set Object_prototype_keys"
  shows "getModelCapabilities modelName = Capabilities (resolution_order modelName)"
  using assms
  by (simp add: getModelCapabilities_def table_get_def resolution_order_def
      family_by_raw_and_normalized_id_def family_match_find split: option.splits)

text \<open>
  An id that is not the name of an inherited member, and whose normalized form is not
  one either, gets a capabilities record.
\<close>

lemma getModelCapabilities_record:
  assumes "modelName \<notin> set Object_prototype_keys"
    and "normalizeModelName modelName \<notin> set Object_prototype_keys"
  shows "\<exists>c. getModelCapabilities modelName = Capabilities c"
  using getModelCapabilities_resolution [OF assms] by blast

text \<open>
  Such an id that matches no entry of the table, as given, normalized or by containment,
  gets the default record.
\<close>

lemma getModelCapabilities_default:
  assumes "modelName \<notin> set Object_prototype_keys"
    and "normalizeModelName modelName \<notin> set Object_prototype_keys"
    and "map_of MODEL_CAPABILITIES modelName = None"
    and "map_of MODEL_CAPABILITIES (normalizeModelName modelName) = None"
    and "family_by_raw_and_normalized_id modelName = None"
  shows "getModelCapabilities modelName = Capabilities DEFAULT_MODEL_CAPABILITIES"
  using getModelCapabilities_resolution [OF assms(1,2)] assms(3-5)
  by (simp add: resolution_order_def)

text \<open>The unknown id of the specification's example gets the default record.\<close>

lemma getModelCapabilities_unknown_family:
  "getModelCapabilities ''foo-bar:9b'' = Capabilities DEFAULT_MODEL_CAPABILITIES
   \<and> supportsTools DEFAULT_MODEL_CAPABILITIES = False
   \<and> maxTools DEFAULT_MODEL_CAPABILITIES = 0"
  by (simp add: string_eval table_eval DEFAULT_MODEL_CAPABILITIES_def)

text \<open>
  C2. The claim: \<^verbatim>\<open>getModelCapabilities\<close> returns a capabilities value for every model id,
  and the default value, with \<open>supportsTools = false\<close>, for an id that matches no entry of
  the table. The code at the id \<^verbatim>\<open>constructor\<close>: the id is no key of the table and no key
  contains it or is contained in it, and the first read of the table gives the member
  \<^verbatim>\<open>constructor\<close> the table object inherits, which the function returns. The value is
  neither the default nor any capabilities record.
\<close>

theorem getModelCapabilities_inherited_member:
  "getModelCapabilities ''constructor'' = InheritedMember ''constructor''
   \<and> map_of MODEL_CAPABILITIES ''constructor'' = None
   \<and> family_by_raw_and_normalized_id ''constructor'' = None
   \<and> getModelCapabilities ''constructor'' \<noteq> Capabilities DEFAULT_MODEL_CAPABILITIES"
  by (simp add: string_eval table_eval family_by_raw_and_normalized_id_def)

text \<open>
  C5, as the code has it. For an id that is not the name of an inherited member, and
  whose normalized form is not one either, \<^verbatim>\<open>getModelCapabilities\<close> returns: (a) the entry
  of the id as given, if the table has one; (b) else the entry of the normalized id, if
  the table has one; (c) else the first entry, in the order of the table, whose key is
  contained in the id as given or contains the normalized id; (d) else the default
  capabilities.
\<close>

theorem getModelCapabilities_order:
  assumes "modelName \<notin> set Object_prototype_keys"
    and "normalizeModelName modelName \<notin> set Object_prototype_keys"
  shows "getModelCapabilities modelName = Capabilities (resolution_order modelName)"
  using assms by (rule getModelCapabilities_resolution)

theorem getModelCapabilities_order_witness:
  "''Codestral-v0.1'' \<notin> set Object_prototype_keys
   \<and> normalizeModelName ''Codestral-v0.1'' \<notin> set Object_prototype_keys
   \<and> getModelCapabilities ''Codestral-v0.1'' = Capabilities (resolution_order ''Codestral-v0.1'')
   \<and> resolution_order ''Codestral-v0.1'' = DEFAULT_MODEL_CAPABILITIES"
  using getModelCapabilities_order [of "''Codestral-v0.1''"]
  by (simp add: string_eval table_eval resolution_order_def family_by_raw_and_normalized_id_def)

text \<open>
  C5 as stated fails at the id \<^verbatim>\<open>Codestral-v0.1\<close>: its normalized form
  \<^verbatim>\<open>codestral-v0.1\<close> contains the key \<^verbatim>\<open>codestral\<close>, so the claimed order gives the entry of
  \<^verbatim>\<open>codestral\<close>; the id as given contains no key, and the code returns the default.
\<close>

theorem normalized_containment_counterexample:
  "getModelCapabilities ''Codestral-v0.1'' = Capabilities DEFAULT_MODEL_CAPABILITIES
   \<and> normalizeModelName ''Codestral-v0.1'' = ''codestral-v0.1''
   \<and> resolution_as_claimed ''Codestral-v0.1''
       = caps Openai 32 True False None Standard Good None None
   \<and> getModelCapabilities ''Codestral-v0.1''
       \<noteq> Capabilities (resolution_as_claimed ''Codestral-v0.1'')"
  by (simp add: string_eval table_eval resolution_as_claimed_def family_by_normalized_id_def
      DEFAULT_MODEL_CAPABILITIES_def)


section \<open>Tool translation\<close>

lemma map_filter_append:
  "List.map_filter f (xs @ ys) = List.map_filter f xs @ List.map_filter f ys"
  by (simp add: List.map_filter_def)

lemma length_map_filter_le: "length (List.map_filter f xs) \<le> length xs"
  by (simp add: List.map_filter_def)

lemma translate_tools_length: "length (translate_tools c tools) \<le> maxTools c"
proof -
  have "length (List.map_filter (\<lambda>tool. fst (convertSingleTool tool c)) (take (maxTools c) tools))
          \<le> length (take (maxTools c) tools)"
    by (rule length_map_filter_le)
  then show ?thesis by (simp add: translate_tools_def)
qed

lemma missing_is_no_truncation [simp]:
  "\<not> is_truncation_warning (MissingFunctionDeclarations tool)"
  by (simp add: is_truncation_warning_def)

lemma classify_tools_truncation:
  "filter is_truncation_warning (warnings (classify_tools tools acc))
     = filter is_truncation_warning (warnings acc)"
proof (induction tools arbitrary: acc)
  case Nil
  show ?case by simp
next
  case (Cons tool tools)
  show ?case
    by (simp add: Cons.IH split: option.splits list.splits)
qed

lemma validate_tools_truncation:
  assumes "supportsTools c" and "maxTools c < length tools"
  shows "filter is_truncation_warning (warnings (validate_tools c modelName tools))
           = [MaxToolsExceeded modelName (maxTools c) (length tools)]"
  using assms by (simp add: validate_tools_def classify_tools_truncation is_truncation_warning_def)

text \<open>
  C3, as the code has it. For a model id that resolves to a capabilities record, the list
  \<^verbatim>\<open>translateGeminiToolsToOllama\<close> returns is not longer than the record's \<open>maxTools\<close>.
  When the model supports tools and more tools are given than \<open>maxTools\<close>, exactly the
  first \<open>maxTools\<close> tools are converted, in their order, and the warnings of
  \<^verbatim>\<open>validateToolsForModel\<close> for the same tools hold exactly one truncation warning, which
  names the model, its \<open>maxTools\<close> and the number of tools given.
\<close>

theorem translated_tools_bounded:
  assumes "getModelCapabilities modelName = Capabilities c"
  shows "length (translateGeminiToolsToOllama tools modelName) \<le> maxTools c
     \<and> (supportsTools c \<and> maxTools c < length tools \<longrightarrow>
          translateGeminiToolsToOllama tools modelName
            = List.map_filter (\<lambda>tool. fst (convertSingleTool tool c)) (take (maxTools c) tools)
          \<and> filter is_truncation_warning (warnings (validateToolsForModel tools modelName))
            = [MaxToolsExceeded modelName (maxTools c) (length tools)])"
proof -
  have bound: "length (translateGeminiToolsToOllama tools modelName) \<le> maxTools c"
    by (simp add: translateGeminiToolsToOllama_def assms translate_tools_length)
  have kept: "translateGeminiToolsToOllama tools modelName
            = List.map_filter (\<lambda>tool. fst (convertSingleTool tool c)) (take (maxTools c) tools)"
    if "supportsTools c" and "maxTools c < length tools"
    using that by (auto simp: translateGeminiToolsToOllama_def assms translate_tools_def)
  have warned: "filter is_truncation_warning (warnings (validateToolsForModel tools modelName))
            = [MaxToolsExceeded modelName (maxTools c) (length tools)]"
    if "supportsTools c" and "maxTools c < length tools"
    using that by (simp add: validateToolsForModel_def assms validate_tools_truncation)
  from bound kept warned show ?thesis by blast
qed

theorem translated_tools_bounded_witness:
  "getModelCapabilities ''llama3.2:latest''
     = Capabilities (caps Openai 16 False True None Standard Good None None)
   \<and> length (translateGeminiToolsToOllama (replicate 17 (tool_declaring ''search''))
               ''llama3.2:latest'') \<le> 16
   \<and> translateGeminiToolsToOllama (replicate 17 (tool_declaring ''search'')) ''llama3.2:latest''
       = List.map_filter
           (\<lambda>tool. fst (convertSingleTool tool
                          (caps Openai 16 False True None Standard Good None None)))
           (replicate 16 (tool_declaring ''search''))
   \<and> filter is_truncation_warning
         (warnings (validateToolsForModel (replicate 17 (tool_declaring ''search''))
                      ''llama3.2:latest''))
       = [MaxToolsExceeded ''llama3.2:latest'' 16 17]"
proof -
  have c: "getModelCapabilities ''llama3.2:latest''
     = Capabilities (caps Openai 16 False True None Standard Good None None)"
    by (simp add: table_eval)
  have s: "supportsTools (caps Openai 16 False True None Standard Good None None)"
    and m: "maxTools (caps Openai 16 False True None Standard Good None None) = 16"
    by (simp_all add: caps_def)
  note t = translated_tools_bounded [OF c, of "replicate 17 (tool_declaring ''search'')"]
  from t have "length (translateGeminiToolsToOllama (replicate 17 (tool_declaring ''search''))
               ''llama3.2:latest'') \<le> 16"
    by (simp add: m)
  moreover from t have "translateGeminiToolsToOllama (replicate 17 (tool_declaring ''search''))
        ''llama3.2:latest''
       = List.map_filter
           (\<lambda>tool. fst (convertSingleTool tool
                          (caps Openai 16 False True None Standard Good None None)))
           (replicate 16 (tool_declaring ''search''))"
    by (simp add: s m)
  moreover from t have "filter is_truncation_warning
         (warnings (validateToolsForModel (replicate 17 (tool_declaring ''search''))
                      ''llama3.2:latest''))
       = [MaxToolsExceeded ''llama3.2:latest'' 16 17]"
    by (simp add: s m)
  ultimately show ?thesis
    using c by blast
qed

text \<open>
  C3 as stated fails for a model that does not support tools: the default capabilities
  have \<open>maxTools = 0\<close>, one tool is more than that, and the only warning is that the model
  does not support tool calling; no warning names a count.
\<close>

theorem unsupported_model_no_truncation_warning:
  "getModelCapabilities ''foo-bar:9b'' = Capabilities DEFAULT_MODEL_CAPABILITIES
   \<and> maxTools DEFAULT_MODEL_CAPABILITIES < length [tool_declaring ''search'']
   \<and> translateGeminiToolsToOllama [tool_declaring ''search''] ''foo-bar:9b'' = []
   \<and> warnings (validateToolsForModel [tool_declaring ''search''] ''foo-bar:9b'')
       = [NoToolSupport ''foo-bar:9b'']
   \<and> filter is_truncation_warning
        (warnings (validateToolsForModel [tool_declaring ''search''] ''foo-bar:9b'')) = []"
proof -
  have c: "getModelCapabilities ''foo-bar:9b'' = Capabilities DEFAULT_MODEL_CAPABILITIES"
    by (simp add: string_eval table_eval DEFAULT_MODEL_CAPABILITIES_def)
  show ?thesis
    by (simp add: c translateGeminiToolsToOllama_def translate_tools_def
        validateToolsForModel_def validate_tools_def DEFAULT_MODEL_CAPABILITIES_def
        is_truncation_warning_def)
qed

text \<open>
  The example of the specification: three tools for capabilities with \<open>maxTools = 2\<close> give
  two translated tools and the one truncation warning. No entry of the table has
  \<open>maxTools = 2\<close>, so the example is about the bodies of the two functions.
\<close>

lemma three_tools_max_two:
  assumes "supportsTools c" and "maxTools c = 2"
  shows "length (translate_tools c [tool_declaring ''a'', tool_declaring ''b'', tool_declaring ''c'']) = 2
    \<and> warnings (validate_tools c modelName [tool_declaring ''a'', tool_declaring ''b'', tool_declaring ''c''])
       = [MaxToolsExceeded modelName 2 3]"
  using assms
  by (simp add: translate_tools_def validate_tools_def List.map_filter_def convertSingleTool_def
      tool_declaring_def numeral_2_eq_2 split: toolFormat.splits)

lemma convertSingleTool_first_only:
  "fst (convertSingleTool (first_declaration_only tool) c) = fst (convertSingleTool tool c)"
  by (simp add: convertSingleTool_def first_declaration_only_def
      split: option.splits list.splits toolFormat.splits)

lemma translate_tools_first_only:
  "translate_tools c (map first_declaration_only tools) = translate_tools c tools"
proof -
  have "List.map_filter (\<lambda>tool. fst (convertSingleTool tool c)) (map first_declaration_only xs)
      = List.map_filter (\<lambda>tool. fst (convertSingleTool tool c)) xs" for xs
    by (induction xs) (simp_all add: convertSingleTool_first_only split: option.splits)
  then show ?thesis
    by (simp add: translate_tools_def take_map)
qed

lemma classify_tools_valid:
  assumes "functionDeclarations tool = Some (d1 # ds)" and "tool \<in> set tools \<or> tool \<in> set (valid acc)"
  shows "tool \<in> set (valid (classify_tools tools acc))"
  using assms(2)
proof (induction tools arbitrary: acc)
  case Nil
  then show ?case by simp
next
  case (Cons t tools)
  show ?case
  proof (cases "tool = t")
    case True
    show ?thesis
      by (simp add: True [symmetric] assms(1)) (rule Cons.IH, simp)
  next
    case False
    with Cons.prems have "tool \<in> set tools \<or> tool \<in> set (valid acc)" by simp
    then show ?thesis
      by (auto intro!: Cons.IH split: option.splits list.splits)
  qed
qed

lemma classify_tools_no_warning:
  assumes "functionDeclarations tool = Some (d1 # ds)"
    and "MissingFunctionDeclarations tool \<notin> set (warnings acc)"
  shows "MissingFunctionDeclarations tool \<notin> set (warnings (classify_tools tools acc))"
  using assms(2)
proof (induction tools arbitrary: acc)
  case Nil
  then show ?case by simp
next
  case (Cons t tools)
  show ?case
    using Cons.prems assms(1)
    by (auto intro!: Cons.IH split: option.splits list.splits)
qed

text \<open>
  The translation of a list of tools is the translation of the tools cut down to their
  first declarations, for every model id.
\<close>

lemma translation_ignores_later_declarations:
  "translateGeminiToolsToOllama (map first_declaration_only tools) modelName
     = translateGeminiToolsToOllama tools modelName"
  by (cases "getModelCapabilities modelName")
     (simp_all add: translateGeminiToolsToOllama_def translate_tools_first_only)

text \<open>
  C10, as the code has it. A tool with two or more function declarations, given to a
  model that supports tools, at a place among the first \<open>maxTools\<close> tools of the list:
  the translated list has, between the translations of the tools before it and of the
  tools after it, exactly one dialect tool for it, the one of the tool cut down to its
  first declaration; nothing is written to the console for it;
  \<^verbatim>\<open>validateToolsForModel\<close> lists the tool as valid and has no warning about it.
\<close>

theorem later_declarations_dropped:
  assumes "functionDeclarations tool = Some (first # second # others)"
    and "getModelCapabilities modelName = Capabilities c"
    and "supportsTools c"
    and "length before < maxTools c"
  shows "(\<exists>x. fst (convertSingleTool (first_declaration_only tool) c) = Some x
            \<and> translateGeminiToolsToOllama (before @ tool # after) modelName
                = List.map_filter (\<lambda>t. fst (convertSingleTool t c)) before
                  @ x # List.map_filter (\<lambda>t. fst (convertSingleTool t c))
                          (take (maxTools c - Suc (length before)) after))
     \<and> functionDeclarations (first_declaration_only tool) = Some [first]
     \<and> snd (convertSingleTool tool c) = []
     \<and> tool \<in> set (valid (validateToolsForModel (before @ tool # after) modelName))
     \<and> MissingFunctionDeclarations tool
           \<notin> set (warnings (validateToolsForModel (before @ tool # after) modelName))"
proof -
  obtain x where x: "fst (convertSingleTool tool c) = Some x"
    by (cases "toolFormat c") (simp_all add: convertSingleTool_def assms(1))
  have x1: "fst (convertSingleTool (first_declaration_only tool) c) = Some x"
    using x by (simp add: convertSingleTool_first_only)
  have t: "take (maxTools c) (before @ tool # after)
      = before @ tool # take (maxTools c - Suc (length before)) after"
  proof -
    have "maxTools c - length before = Suc (maxTools c - Suc (length before))"
      using assms(4) by simp
    then show ?thesis by simp
  qed
  have "translateGeminiToolsToOllama (before @ tool # after) modelName
      = List.map_filter (\<lambda>t. fst (convertSingleTool t c)) before
        @ x # List.map_filter (\<lambda>t. fst (convertSingleTool t c))
                (take (maxTools c - Suc (length before)) after)"
  proof -
    have "translateGeminiToolsToOllama (before @ tool # after) modelName
        = List.map_filter (\<lambda>t. fst (convertSingleTool t c))
            (take (maxTools c) (before @ tool # after))"
      using assms(3)
      by (simp add: translateGeminiToolsToOllama_def assms(2) translate_tools_def
          del: take_append)
    then show ?thesis
      unfolding t by (simp add: map_filter_append x)
  qed
  moreover have "functionDeclarations (first_declaration_only tool) = Some [first]"
    by (simp add: first_declaration_only_def assms(1))
  moreover have "snd (convertSingleTool tool c) = []"
    by (simp add: convertSingleTool_def assms(1) split: toolFormat.splits)
  moreover have "tool \<in> set (valid (validateToolsForModel (before @ tool # after) modelName))"
    using assms(3)
    by (simp add: validateToolsForModel_def assms(2) validate_tools_def
        classify_tools_valid [OF assms(1)])
  moreover have "MissingFunctionDeclarations tool
       \<notin> set (warnings (validateToolsForModel (before @ tool # after) modelName))"
    using assms(3)
    by (simp add: validateToolsForModel_def assms(2) validate_tools_def
        classify_tools_no_warning [OF assms(1)])
  ultimately show ?thesis
    using x1 by blast
qed


theorem later_declarations_dropped_witness:
  "functionDeclarations search_and_fetch
     = Some [function_declaration ''search'', function_declaration ''fetch'']
   \<and> getModelCapabilities ''mistral:latest'' = Capabilities
         (caps Openai 128 True False None Standard Excellent None
           (Some \<lparr>recommendedContextSize = None, requiresExplicitToolChoice = Some True,
                 specialTokens = None\<rparr>))
   \<and> length [tool_declaring ''list''] < 128
   \<and> first_declaration_only search_and_fetch = tool_declaring ''search''
   \<and> translateGeminiToolsToOllama [tool_declaring ''list'', search_and_fetch] ''mistral:latest''
       = translateGeminiToolsToOllama [tool_declaring ''list'', tool_declaring ''search'']
           ''mistral:latest''
   \<and> map tool_name
         (translateGeminiToolsToOllama [tool_declaring ''list'', search_and_fetch]
            ''mistral:latest'')
       = [''list'', ''search'']
   \<and> validateToolsForModel [tool_declaring ''list'', search_and_fetch] ''mistral:latest''
       = \<lparr>valid = [tool_declaring ''list'', search_and_fetch], invalid = [], warnings = []\<rparr>"
proof -
  define c where "c = caps Openai 128 True False None Standard Excellent None
           (Some \<lparr>recommendedContextSize = None, requiresExplicitToolChoice = Some True,
                 specialTokens = None\<rparr>)"
  have g: "getModelCapabilities ''mistral:latest'' = Capabilities c"
    by (simp add: table_eval c_def)
  have s: "supportsTools c" and m: "maxTools c = 128" and f: "toolFormat c = Openai"
    by (simp_all add: caps_def c_def)
  have l: "length [tool_declaring ''list''] < maxTools c"
    by (simp add: m)
  have fo: "first_declaration_only search_and_fetch = tool_declaring ''search''"
    by (simp add: first_declaration_only_def search_and_fetch_def tool_declaring_def)
  have d: "functionDeclarations search_and_fetch
             = Some (function_declaration ''search'' # function_declaration ''fetch'' # [])"
    by (simp add: search_and_fetch_def)
  have two: "translateGeminiToolsToOllama [tool_declaring ''list'', tool_declaring ''search'']
               ''mistral:latest''
       = [the (fst (convertSingleTool (tool_declaring ''list'') c)),
          the (fst (convertSingleTool (tool_declaring ''search'') c))]"
    by (simp add: translateGeminiToolsToOllama_def g translate_tools_def s m
        convertSingleTool_def tool_declaring_def f)
  have names: "map tool_name [the (fst (convertSingleTool (tool_declaring ''list'') c)),
          the (fst (convertSingleTool (tool_declaring ''search'') c))] = [''list'', ''search'']"
    by (simp add: convertSingleTool_def tool_declaring_def f convertToOpenAIFormat_def
        make_tool_def function_declaration_def)
  have v: "validateToolsForModel [tool_declaring ''list'', search_and_fetch] ''mistral:latest''
       = \<lparr>valid = [tool_declaring ''list'', search_and_fetch], invalid = [], warnings = []\<rparr>"
    by (simp add: validateToolsForModel_def g validate_tools_def s m search_and_fetch_def
        tool_declaring_def)
  from later_declarations_dropped [OF d g s l, of "[]"]
  have "translateGeminiToolsToOllama [tool_declaring ''list'', search_and_fetch] ''mistral:latest''
      = [the (fst (convertSingleTool (tool_declaring ''list'') c)),
         the (fst (convertSingleTool (tool_declaring ''search'') c))]"
    by (auto simp: fo convertSingleTool_def tool_declaring_def f)
  then show ?thesis
    using d g fo two names v by (simp add: c_def)
qed

text \<open>
  C10 as stated fails for a model that does not support tools: the tool with two
  declarations is listed as invalid, not as valid, and nothing is translated for it.
\<close>

theorem multi_declaration_tool_not_translated:
  "functionDeclarations search_and_fetch
     = Some [function_declaration ''search'', function_declaration ''fetch'']
   \<and> getModelCapabilities ''foo-bar:9b'' = Capabilities DEFAULT_MODEL_CAPABILITIES
   \<and> translateGeminiToolsToOllama [search_and_fetch] ''foo-bar:9b'' = []
   \<and> validateToolsForModel [search_and_fetch] ''foo-bar:9b''
       = \<lparr>valid = [], invalid = [search_and_fetch], warnings = [NoToolSupport ''foo-bar:9b'']\<rparr>"
proof -
  have c: "getModelCapabilities ''foo-bar:9b'' = Capabilities DEFAULT_MODEL_CAPABILITIES"
    by (simp add: string_eval table_eval DEFAULT_MODEL_CAPABILITIES_def)
  show ?thesis
    by (simp add: c translateGeminiToolsToOllama_def translate_tools_def
        validateToolsForModel_def validate_tools_def DEFAULT_MODEL_CAPABILITIES_def
        search_and_fetch_def)
qed

text \<open>
  It fails too for a tool after the first \<open>maxTools\<close> tools of a model that supports
  tools: the tool is listed as valid and nothing is translated for it.
\<close>

lemma tool_behind_cut_contributes_nothing:
  "translateGeminiToolsToOllama (replicate 16 (tool_declaring ''list'') @ [search_and_fetch])
     ''llama3.2:latest''
     = translateGeminiToolsToOllama (replicate 16 (tool_declaring ''list'')) ''llama3.2:latest''
   \<and> length (translateGeminiToolsToOllama
                (replicate 16 (tool_declaring ''list'') @ [search_and_fetch])
                ''llama3.2:latest'') = 16
   \<and> search_and_fetch
       \<in> set (valid (validateToolsForModel
                      (replicate 16 (tool_declaring ''list'') @ [search_and_fetch])
                      ''llama3.2:latest''))"
proof -
  define c where "c = caps Openai 16 False True None Standard Good None None"
  have g: "getModelCapabilities ''llama3.2:latest'' = Capabilities c"
    by (simp add: table_eval c_def)
  have s: "supportsTools c" and m: "maxTools c = 16" and f: "toolFormat c = Openai"
    by (simp_all add: caps_def c_def)
  have d: "functionDeclarations search_and_fetch
             = Some (function_declaration ''search'' # [function_declaration ''fetch''])"
    by (simp add: search_and_fetch_def)
  have t: "translateGeminiToolsToOllama (replicate 16 (tool_declaring ''list'') @ [search_and_fetch])
     ''llama3.2:latest''
     = translateGeminiToolsToOllama (replicate 16 (tool_declaring ''list'')) ''llama3.2:latest''"
    by (simp add: translateGeminiToolsToOllama_def g translate_tools_def s m)
  have "translateGeminiToolsToOllama (replicate 16 (tool_declaring ''list'')) ''llama3.2:latest''
      = map (\<lambda>t. the (fst (convertSingleTool t c))) (replicate 16 (tool_declaring ''list''))"
    by (simp add: translateGeminiToolsToOllama_def g translate_tools_def s m
        List.map_filter_def convertSingleTool_def tool_declaring_def f)
  then have l: "length (translateGeminiToolsToOllama (replicate 16 (tool_declaring ''list''))
                  ''llama3.2:latest'') = 16"
    by simp
  have v: "search_and_fetch
       \<in> set (valid (validateToolsForModel
                      (replicate 16 (tool_declaring ''list'') @ [search_and_fetch])
                      ''llama3.2:latest''))"
    using s by (simp add: validateToolsForModel_def g validate_tools_def
        classify_tools_valid [OF d])
  show ?thesis
    using t l v by simp
qed

section \<open>Response validation\<close>

lemma findRegisteredTool_registered:
  "(findRegisteredTool name tools \<noteq> None) = is_registered name tools"
  by (induction tools) (auto simp: is_registered_def split: option.splits)

lemma is_registered_iff:
  "is_registered name tools =
     (\<exists>tool \<in> set tools. \<exists>funcs. functionDeclarations tool = Some funcs
        \<and> (\<exists>func \<in> set funcs. fd_name func = Some name))"
proof -
  have eq: "(case functionDeclarations tool of
           Some funcs \<Rightarrow> list_ex (\<lambda>func. fd_name func = Some name) funcs
         | None \<Rightarrow> False)
        = (\<exists>funcs. functionDeclarations tool = Some funcs
             \<and> (\<exists>func \<in> set funcs. fd_name func = Some name))" for tool
    by (cases "functionDeclarations tool") (simp_all add: list_ex_iff)
  show ?thesis
    by (simp add: is_registered_def list_ex_iff eq)
qed

lemma validateToolCallArguments_fst:
  "fst (validateToolCallArguments parse call stats) = (structured_arguments parse call \<noteq> None)"
  by (cases "function_arguments call")
     (auto simp: validateToolCallArguments_def structured_arguments_def Let_def
           split: option.splits)

lemma validateToolCallArguments_unknown:
  "unknownToolCalls (snd (validateToolCallArguments parse call stats)) = unknownToolCalls stats"
  by (cases "function_arguments call")
     (auto simp: validateToolCallArguments_def Let_def split: option.splits)

lemma validateForModelSpecificRequirements_fst:
  "fst (validateForModelSpecificRequirements call capabilities stats)
     = passes_model_rules capabilities (function_name call)"
  by (auto simp: validateForModelSpecificRequirements_def passes_model_rules_def)

lemma validateForModelSpecificRequirements_unknown:
  "unknownToolCalls (snd (validateForModelSpecificRequirements call capabilities stats))
     = unknownToolCalls stats"
  by (auto simp: validateForModelSpecificRequirements_def)

lemma isValidToolCall_fst:
  "fst (isValidToolCall parse call capabilities tools stats) = accepted parse capabilities tools call"
proof (cases "findRegisteredTool (function_name call) tools")
  case None
  then have "\<not> is_registered (function_name call) tools"
    using findRegisteredTool_registered [of "function_name call" tools] by simp
  with None show ?thesis
    by (simp add: isValidToolCall_def accepted_def)
next
  case (Some tool)
  then have r: "is_registered (function_name call) tools"
    using findRegisteredTool_registered [of "function_name call" tools] by simp
  obtain ok stats1 where v: "validateToolCallArguments parse call stats = (ok, stats1)"
    by (cases "validateToolCallArguments parse call stats")
  have ok: "ok = (structured_arguments parse call \<noteq> None)"
    using validateToolCallArguments_fst [of parse call stats] v by simp
  show ?thesis
    by (cases ok)
       (use ok in \<open>simp_all add: isValidToolCall_def Some v accepted_def r
          validateForModelSpecificRequirements_fst\<close>)
qed

lemma isValidToolCall_unknown:
  "unknownToolCalls (snd (isValidToolCall parse call capabilities tools stats))
     = unknownToolCalls stats + (if is_registered (function_name call) tools then 0 else 1)"
proof (cases "findRegisteredTool (function_name call) tools")
  case None
  then have "\<not> is_registered (function_name call) tools"
    using findRegisteredTool_registered [of "function_name call" tools] by simp
  with None show ?thesis
    by (simp add: isValidToolCall_def)
next
  case (Some tool)
  then have r: "is_registered (function_name call) tools"
    using findRegisteredTool_registered [of "function_name call" tools] by simp
  obtain ok stats1 where v: "validateToolCallArguments parse call stats = (ok, stats1)"
    by (cases "validateToolCallArguments parse call stats")
  have u: "unknownToolCalls stats1 = unknownToolCalls stats"
    using validateToolCallArguments_unknown [of parse call stats] v by simp
  show ?thesis
    by (cases ok)
       (simp_all add: isValidToolCall_def Some v r u validateForModelSpecificRequirements_unknown)
qed

lemma filter_calls_fst:
  "fst (filter_calls parse capabilities tools calls stats)
     = filter (accepted parse capabilities tools) calls"
proof (induction calls arbitrary: stats)
  case Nil
  show ?case by simp
next
  case (Cons call calls)
  obtain keep stats1 where v: "isValidToolCall parse call capabilities tools stats = (keep, stats1)"
    by (cases "isValidToolCall parse call capabilities tools stats")
  have keep: "keep = accepted parse capabilities tools call"
    using isValidToolCall_fst [of parse call capabilities tools stats] v by simp
  obtain kept stats2 where f: "filter_calls parse capabilities tools calls stats1 = (kept, stats2)"
    by (cases "filter_calls parse capabilities tools calls stats1")
  have kept: "kept = filter (accepted parse capabilities tools) calls"
    using Cons.IH [of stats1] f by simp
  show ?case
    by (simp add: v f keep kept)
qed

lemma filter_calls_unknown:
  "unknownToolCalls (snd (filter_calls parse capabilities tools calls stats))
     = unknownToolCalls stats
       + length (filter (\<lambda>call. \<not> is_registered (function_name call) tools) calls)"
proof (induction calls arbitrary: stats)
  case Nil
  show ?case by simp
next
  case (Cons call calls)
  obtain keep stats1 where v: "isValidToolCall parse call capabilities tools stats = (keep, stats1)"
    by (cases "isValidToolCall parse call capabilities tools stats")
  have u: "unknownToolCalls stats1
      = unknownToolCalls stats + (if is_registered (function_name call) tools then 0 else 1)"
    using isValidToolCall_unknown [of parse call capabilities tools stats] v by simp
  obtain kept stats2 where f: "filter_calls parse capabilities tools calls stats1 = (kept, stats2)"
    by (cases "filter_calls parse capabilities tools calls stats1")
  have "unknownToolCalls stats2 = unknownToolCalls stats1
       + length (filter (\<lambda>call. \<not> is_registered (function_name call) tools) calls)"
    using Cons.IH [of stats1] f by simp
  then show ?case
    by (simp add: v f u)
qed

lemma record_filtered_unknown:
  "unknownToolCalls (record_filtered stats n modelName) = unknownToolCalls stats"
  by (simp add: record_filtered_def Let_def)

lemma call_pair_simps [simp]:
  "call_pair (FunctionCallPart name args) = Some (name, args)"
  "call_pair (TextPart t) = None"
  by (simp_all add: call_pair_def)

lemma function_calls_convert:
  "function_calls (convertToGeminiFormat parse r capabilities)
     = List.map_filter call_pair
         (List.map_filter (\<lambda>call. convertToolCallToFunctionCall parse call capabilities)
            (calls_of r))"
proof -
  define call_parts where
    "call_parts = List.map_filter (\<lambda>call. convertToolCallToFunctionCall parse call capabilities)
                    (calls_of r)"
  define text_parts where
    "text_parts = (if content (message r) \<noteq> [] \<and> trim (content (message r)) \<noteq> []
                   then [TextPart (content (message r))] else [])"
  have t: "List.map_filter call_pair text_parts = []"
    by (simp add: text_parts_def)
  have c: "(case tool_calls (message r) of
              Some calls \<Rightarrow>
                List.map_filter (\<lambda>call. convertToolCallToFunctionCall parse call capabilities) calls
            | None \<Rightarrow> []) = call_parts"
    by (simp add: call_parts_def calls_of_def split: option.splits)
  have p: "concat (map parts (candidates (convertToGeminiFormat parse r capabilities)))
      = (if text_parts @ call_parts = [] then [TextPart []] else text_parts @ call_parts)"
    unfolding convertToGeminiFormat_def c text_parts_def [symmetric]
    by (simp add: Let_def)
  have "function_calls (convertToGeminiFormat parse r capabilities)
      = List.map_filter call_pair
          (if text_parts @ call_parts = [] then [TextPart []] else text_parts @ call_parts)"
    unfolding function_calls_def p call_pair_def [abs_def] ..
  also have "\<dots> = List.map_filter call_pair call_parts"
    by (cases "text_parts @ call_parts = []") (simp_all add: map_filter_append t)
  finally show ?thesis
    by (simp add: call_parts_def)
qed

lemma accepted_emitted:
  assumes "accepted parse capabilities tools call"
  shows "\<exists>args. structured_arguments parse call = Some args
      \<and> convertToolCallToFunctionCall parse call capabilities
          = Some (FunctionCallPart (function_name call)
                   (if customParser_of capabilities = Some ''qwen3coder''
                    then processQwenCoderArguments args else args))"
proof -
  from assms obtain args where a: "structured_arguments parse call = Some args"
    by (auto simp: accepted_def)
  then show ?thesis
    by (cases "function_arguments call")
       (auto simp: convertToolCallToFunctionCall_def structured_arguments_def)
qed

lemma emitted_calls:
  assumes "\<forall>call \<in> set calls. accepted parse capabilities tools call"
  shows "List.map_filter call_pair
           (List.map_filter (\<lambda>call. convertToolCallToFunctionCall parse call capabilities) calls)
         = map (\<lambda>call. the (emitted parse capabilities call)) calls"
  using assms
proof (induction calls)
  case Nil
  show ?case by simp
next
  case (Cons call calls)
  then have "accepted parse capabilities tools call" by simp
  from accepted_emitted [OF this] obtain args where
    a: "structured_arguments parse call = Some args"
    and c: "convertToolCallToFunctionCall parse call capabilities
          = Some (FunctionCallPart (function_name call)
                   (if customParser_of capabilities = Some ''qwen3coder''
                    then processQwenCoderArguments args else args))"
    by blast
  from Cons have IH: "List.map_filter call_pair
           (List.map_filter (\<lambda>call. convertToolCallToFunctionCall parse call capabilities) calls)
         = map (\<lambda>call. the (emitted parse capabilities call)) calls"
    by simp
  show ?case
    by (simp add: c IH emitted_def a)
qed

lemma validated_function_calls:
  "function_calls (fst (validateAndTranslateResponse parse response modelName tools))
     = map (\<lambda>call. the (emitted parse (getModelCapabilities modelName) call))
         (filter (accepted parse (getModelCapabilities modelName) tools) (calls_of response))"
proof (cases "tool_calls (message response)")
  case None
  then show ?thesis
    by (simp add: validateAndTranslateResponse_def Let_def function_calls_convert calls_of_def)
next
  case (Some calls)
  define capabilities where "capabilities = getModelCapabilities modelName"
  obtain validCalls stats where
    f: "filter_calls parse capabilities tools calls (empty_stats\<lparr>totalToolCalls := length calls\<rparr>)
          = (validCalls, stats)"
    by (cases "filter_calls parse capabilities tools calls (empty_stats\<lparr>totalToolCalls := length calls\<rparr>)")
  have v: "validCalls = filter (accepted parse capabilities tools) calls"
    using filter_calls_fst [of parse capabilities tools calls "empty_stats\<lparr>totalToolCalls := length calls\<rparr>"] f
    by simp
  have out: "fst (validateAndTranslateResponse parse response modelName tools)
      = convertToGeminiFormat parse
          (response\<lparr>message := (message response)\<lparr>tool_calls := Some validCalls\<rparr>\<rparr>) capabilities"
    by (simp add: validateAndTranslateResponse_def Let_def Some capabilities_def [symmetric] f)
  have "function_calls (fst (validateAndTranslateResponse parse response modelName tools))
      = List.map_filter call_pair
         (List.map_filter (\<lambda>call. convertToolCallToFunctionCall parse call capabilities)
            validCalls)"
    by (simp add: out function_calls_convert calls_of_def)
  also have "\<dots> = map (\<lambda>call. the (emitted parse capabilities call)) validCalls"
    by (rule emitted_calls [where tools = tools]) (simp add: v)
  finally show ?thesis
    by (simp add: v capabilities_def calls_of_def Some)
qed

lemma validated_unknown_count:
  "unknownToolCalls (snd (validateAndTranslateResponse parse response modelName tools))
     = length (filter (\<lambda>call. \<not> is_registered (function_name call) tools) (calls_of response))"
proof (cases "tool_calls (message response)")
  case None
  then show ?thesis
    by (simp add: validateAndTranslateResponse_def Let_def calls_of_def empty_stats_def)
next
  case (Some calls)
  define capabilities where "capabilities = getModelCapabilities modelName"
  obtain validCalls stats where
    f: "filter_calls parse capabilities tools calls (empty_stats\<lparr>totalToolCalls := length calls\<rparr>)
          = (validCalls, stats)"
    by (cases "filter_calls parse capabilities tools calls (empty_stats\<lparr>totalToolCalls := length calls\<rparr>)")
  have "unknownToolCalls stats
      = length (filter (\<lambda>call. \<not> is_registered (function_name call) tools) calls)"
    using filter_calls_unknown [of parse capabilities tools calls "empty_stats\<lparr>totalToolCalls := length calls\<rparr>"] f
    by (simp add: empty_stats_def)
  then show ?thesis
    by (simp add: validateAndTranslateResponse_def Let_def Some capabilities_def [symmetric] f
        record_filtered_unknown calls_of_def)
qed

text \<open>
  C1. For every backend response, model id and list of registered tools (the empty list
  too), and whatever \<^verbatim>\<open>JSON.parse\<close> does: every tool call of the response that
  \<^verbatim>\<open>validateAndTranslateResponse\<close> returns has the name of a function declaration of a
  registered tool, and the count \<open>unknownToolCalls\<close> is the number of tool calls of the
  backend response whose name is the name of no such declaration.
\<close>

theorem emitted_calls_registered:
  "(\<forall>(name, args) \<in> set (function_calls
        (fst (validateAndTranslateResponse parse response modelName registeredTools))).
      \<exists>tool \<in> set registeredTools. \<exists>funcs. functionDeclarations tool = Some funcs
        \<and> (\<exists>func \<in> set funcs. fd_name func = Some name))
   \<and> unknownToolCalls (snd (validateAndTranslateResponse parse response modelName registeredTools))
       = length (filter (\<lambda>call. \<not> is_registered (function_name call) registeredTools)
                   (calls_of response))"
proof -
  have "is_registered name registeredTools"
    if "(name, args) \<in> set (function_calls
        (fst (validateAndTranslateResponse parse response modelName registeredTools)))"
    for name args
  proof -
    from that obtain call where
      c: "accepted parse (getModelCapabilities modelName) registeredTools call"
      and e: "(name, args) = the (emitted parse (getModelCapabilities modelName) call)"
      by (auto simp: validated_function_calls)
    from accepted_emitted [OF c] e have "name = function_name call"
      by (auto simp: emitted_def)
    with c show ?thesis by (simp add: accepted_def)
  qed
  then show ?thesis
    by (auto simp: validated_unknown_count is_registered_iff)
qed



lemmas validation_eval =
  validateAndTranslateResponse_def isValidToolCall_def validateToolCallArguments_def
  validateForModelSpecificRequirements_def customParser_of_def multiTurnSupport_of_def
  convertToGeminiFormat_def convertToolCallToFunctionCall_def function_calls_def
  record_filtered_def empty_stats_def trim_def is_space_def example_response_def
  example_call_def example_parse_def tool_declaring_def function_declaration_def
  processQwenCoderArguments_def Let_def calls_of_def is_registered_def count_or_zero_def
  structured_arguments_def passes_model_rules_def

theorem emitted_calls_registered_witness:
  "function_calls
     (fst (validateAndTranslateResponse example_parse
             (example_response []
                (Some [example_call ''search'' (JStr ''{}''),
                       example_call ''unregistered_fn'' (JStr ''{}''),
                       example_call ''search'' (JStr ''not-json'')]) True)
             ''mistral:latest'' [tool_declaring ''search'']))
     = [(''search'', JObj [])]
   \<and> (\<exists>tool \<in> set [tool_declaring ''search'']. \<exists>funcs.
         functionDeclarations tool = Some funcs
         \<and> (\<exists>func \<in> set funcs. fd_name func = Some ''search''))
   \<and> unknownToolCalls
        (snd (validateAndTranslateResponse example_parse
             (example_response []
                (Some [example_call ''search'' (JStr ''{}''),
                       example_call ''unregistered_fn'' (JStr ''{}''),
                       example_call ''search'' (JStr ''not-json'')]) True)
             ''mistral:latest'' [tool_declaring ''search''])) = 1"
  using emitted_calls_registered [of example_parse
          "example_response []
                (Some [example_call ''search'' (JStr ''{}''),
                       example_call ''unregistered_fn'' (JStr ''{}''),
                       example_call ''search'' (JStr ''not-json'')]) True"
          "''mistral:latest''" "[tool_declaring ''search'']"]
  by (simp add: validation_eval table_eval)




text \<open>
  For the parser \<^verbatim>\<open>qwen3coder\<close> the arguments of a kept call are not its arguments as
  received when they have an object under \<^verbatim>\<open>parameters\<close>: the object is what is emitted.
\<close>

lemma wrapped_arguments_unwrapped:
  "function_calls
     (fst (validateAndTranslateResponse example_parse
             (example_response []
                (Some [example_call ''search'' (JObj [(''parameters'', JObj [(''q'', JNum 1)])])])
                True)
             ''qwen2.5-coder:7b'' [tool_declaring ''search'']))
     = [(''search'', JObj [(''q'', JNum 1)])]"
  by (simp add: validation_eval table_eval string_eval)



section \<open>The store\<close>

lemma lookup_append_old: "a < length h \<Longrightarrow> lookup (h @ ext) a = lookup h a"
  by (simp add: lookup_def nth_append)

lemma lookup_append_new: "lookup (h @ c # ext) (length h) = Some c"
  by (simp add: lookup_def nth_append)

lemma lookup_Some_less: "lookup h a = Some c \<Longrightarrow> a < length h"
  by (simp add: lookup_def split: if_splits)

lemma lookup_update_other: "a \<noteq> k \<Longrightarrow> lookup (h[k := c]) a = lookup h a"
  by (simp add: lookup_def)

lemma lookup_update_same: "k < length h \<Longrightarrow> lookup (h[k := c]) k = Some c"
  by (simp add: lookup_def)

lemma read_tool_calls_cong:
  assumes "\<forall>a \<in> set refs. lookup h' a = lookup h a"
  shows "read_tool_calls h' refs = read_tool_calls h refs"
  using assms by (induction refs) (simp_all split: option.splits cell.splits)

lemma alloc_tool_calls_eq:
  "alloc_tool_calls h calls
     = (h @ map ToolCallObject calls, [length h ..< length h + length calls])"
proof (induction calls arbitrary: h)
  case Nil
  show ?case by simp
next
  case (Cons call calls)
  have "[length h ..< length h + Suc (length calls)]
      = length h # [Suc (length h) ..< Suc (length h) + length calls]"
    by (subst upt_rec) simp
  then show ?case
    by (simp add: alloc_def Cons.IH)
qed

lemma read_allocated_tool_calls:
  "read_tool_calls (h @ map ToolCallObject calls @ ext) [length h ..< length h + length calls]
     = Some calls"
proof (induction calls arbitrary: h)
  case Nil
  show ?case by simp
next
  case (Cons call calls)
  have u: "[length h ..< length h + Suc (length calls)]
      = length h # [length (h @ [ToolCallObject call])
                     ..< length (h @ [ToolCallObject call]) + length calls]"
    by (subst upt_rec) simp
  have "read_tool_calls ((h @ [ToolCallObject call]) @ map ToolCallObject calls @ ext)
          [length (h @ [ToolCallObject call])
             ..< length (h @ [ToolCallObject call]) + length calls] = Some calls"
    by (rule Cons.IH)
  then have r: "read_tool_calls (h @ ToolCallObject call # map ToolCallObject calls @ ext)
          [length (h @ [ToolCallObject call])
             ..< length (h @ [ToolCallObject call]) + length calls] = Some calls"
    by simp
  show ?case
    unfolding list.map append_Cons length_Cons u read_tool_calls.simps
    by (simp only: lookup_append_new r) simp
qed


lemma lookup_append_Some: "lookup h a = Some c \<Longrightarrow> lookup (h @ ext) a = Some c"
  using lookup_append_old [of a h ext] lookup_Some_less [of h a c] by simp

lemma read_tool_calls_append:
  "read_tool_calls h refs = Some calls \<Longrightarrow> read_tool_calls (h @ ext) refs = Some calls"
proof (induction refs arbitrary: calls)
  case Nil
  then show ?case by simp
next
  case (Cons a refs)
  from Cons.prems obtain call rest where
    l: "lookup h a = Some (ToolCallObject call)"
    and r: "read_tool_calls h refs = Some rest"
    and c: "calls = call # rest"
    by (auto split: option.splits cell.splits)
  show ?case
    by (simp add: lookup_append_Some [OF l] Cons.IH [OF r] c)
qed

lemma read_message_append:
  assumes "read_message h a = Some m"
  shows "read_message (h @ ext) a = Some m"
proof -
  from assms obtain mo where l: "lookup h a = Some (MessageObject mo)"
    by (auto simp: read_message_def split: option.splits cell.splits)
  show ?thesis
  proof (cases "tool_calls mo")
    case None
    with assms l show ?thesis
      by (simp add: read_message_def lookup_append_Some [OF l])
  next
    case (Some arr)
    with assms l obtain refs calls where
      la: "lookup h arr = Some (ArrayObject refs)"
      and rc: "read_tool_calls h refs = Some calls"
      and m: "m = \<lparr>content = content mo, tool_calls = Some calls\<rparr>"
      by (auto simp: read_message_def split: option.splits cell.splits)
    show ?thesis
      by (simp add: read_message_def lookup_append_Some [OF l] Some lookup_append_Some [OF la]
          read_tool_calls_append [OF rc] m)
  qed
qed

lemma read_response_append:
  assumes "read_response h a = Some r"
  shows "read_response (h @ ext) a = Some r"
proof -
  from assms obtain ro m where l: "lookup h a = Some (ResponseObject ro)"
    and rm: "read_message h (message ro) = Some m"
    and r: "r = with_message ro m"
    by (auto simp: read_response_def split: option.splits cell.splits)
  show ?thesis
    by (simp add: read_response_def lookup_append_Some [OF l] read_message_append [OF rm] r)
qed

lemma read_response_prefix:
  assumes "take (length h) h' = h" and "read_response h a = Some r"
  shows "read_response h' a = Some r"
proof -
  have "h' = h @ drop (length h) h'"
    using assms(1) append_take_drop_id [of "length h" h'] by simp
  then show ?thesis
    using read_response_append [OF assms(2), of "drop (length h) h'"] by simp
qed

lemma filter_refs_calls:
  assumes "read_tool_calls h refs = Some calls"
  shows "\<exists>kept. filter_refs parse h capabilities tools refs stats
                  = Some (kept, snd (filter_calls parse capabilities tools calls stats))
              \<and> read_tool_calls h kept
                  = Some (fst (filter_calls parse capabilities tools calls stats))
              \<and> set kept \<subseteq> set refs"
  using assms
proof (induction refs arbitrary: calls stats)
  case Nil
  then show ?case by simp
next
  case (Cons a refs)
  from Cons.prems obtain call rest where
    l: "lookup h a = Some (ToolCallObject call)"
    and r: "read_tool_calls h refs = Some rest"
    and c: "calls = call # rest"
    by (auto split: option.splits cell.splits)
  obtain keep stats1 where v: "isValidToolCall parse call capabilities tools stats = (keep, stats1)"
    by (cases "isValidToolCall parse call capabilities tools stats")
  from Cons.IH [OF r, of stats1] obtain kept where
    f: "filter_refs parse h capabilities tools refs stats1
          = Some (kept, snd (filter_calls parse capabilities tools rest stats1))"
    and k: "read_tool_calls h kept = Some (fst (filter_calls parse capabilities tools rest stats1))"
    and s: "set kept \<subseteq> set refs"
    by blast
  obtain kept_calls stats2 where
    fc: "filter_calls parse capabilities tools rest stats1 = (kept_calls, stats2)"
    by (cases "filter_calls parse capabilities tools rest stats1")
  show ?case
  proof (cases keep)
    case True
    have "filter_refs parse h capabilities tools (a # refs) stats = Some (a # kept, stats2)"
      using f by (simp add: l v fc True)
    moreover have "read_tool_calls h (a # kept) = Some (call # kept_calls)"
      using k by (simp add: l fc)
    moreover have "filter_calls parse capabilities tools calls stats = (call # kept_calls, stats2)"
      by (simp add: c v fc True)
    ultimately show ?thesis
      using s by auto
  next
    case False
    have "filter_refs parse h capabilities tools (a # refs) stats = Some (kept, stats2)"
      using f by (simp add: l v fc False)
    moreover have "read_tool_calls h kept = Some kept_calls"
      using k by (simp add: fc)
    moreover have "filter_calls parse capabilities tools calls stats = (kept_calls, stats2)"
      by (simp add: c v fc False)
    ultimately show ?thesis
      using s by auto
  qed
qed

lemma read_tool_calls_length:
  "read_tool_calls h refs = Some calls \<Longrightarrow> length calls = length refs"
  by (induction refs arbitrary: calls) (auto split: option.splits cell.splits)

lemma with_message_message [simp]: "message (with_message r m) = m"
  by (simp add: with_message_def)

lemma with_message_twice [simp]: "with_message (with_message r a) m = with_message r m"
  by (simp add: with_message_def)

lemma with_message_same [simp]:
  "with_message (r :: 'a response_fields) (message r) = r"
  by (simp add: with_message_def)

lemma store_without_tool_calls:
  assumes "read_response h response = Some r" and "tool_calls (message r) = None"
  shows "validateAndTranslateResponse_store parse h response modelName tools
           = Some (convertToGeminiFormat parse r (getModelCapabilities modelName), empty_stats,
                   h @ [MessageObject \<lparr>content = content (message r), tool_calls = None\<rparr>,
                        ResponseObject (with_message r (length h))])"
proof -
  define M where "M = MessageObject \<lparr>content = content (message r), tool_calls = None\<rparr>"
  define R where "R = ResponseObject (with_message r (length h))"
  define h1 where "h1 = h @ [M, R]"
  have c: "clone h response = Some (h1, Suc (length h))"
    by (simp add: clone_def assms alloc_response_def alloc_message_def alloc_def h1_def M_def R_def)
  have lR: "lookup h1 (Suc (length h)) = Some R"
    by (simp add: lookup_def h1_def nth_append)
  have lM: "lookup h1 (length h) = Some M"
    by (simp add: lookup_def h1_def nth_append)
  have m: "message r = \<lparr>content = content (message r), tool_calls = None\<rparr>"
    using assms(2) by simp
  have rd: "read_response h1 (Suc (length h)) = Some r"
    using m by (simp add: read_response_def lR R_def read_message_def lM M_def)
  show ?thesis
    unfolding validateAndTranslateResponse_store_def Let_def c
    by (simp add: lR R_def lM M_def rd [unfolded R_def]) (simp add: h1_def M_def R_def)
qed

lemma store_with_tool_calls:
  assumes "read_response h response = Some r" and "tool_calls (message r) = Some calls"
  shows "\<exists>ext. validateAndTranslateResponse_store parse h response modelName tools
           = Some (fst (validateAndTranslateResponse parse r modelName tools),
                   snd (validateAndTranslateResponse parse r modelName tools),
                   h @ ext)"
proof -
  define capabilities where "capabilities = getModelCapabilities modelName"
  define n where "n = length calls"
  define refs where "refs = [length h ..< length h + n]"
  define arr where "arr = length h + n"
  define m where "m = Suc arr"
  define v where "v = Suc m"
  define A where "A = ArrayObject refs"
  define mo :: "addr message_fields" where
    "mo = \<lparr>content = content (message r), tool_calls = Some arr\<rparr>"
  define ro where "ro = with_message r m"
  define h1 where "h1 = h @ map ToolCallObject calls @ [A, MessageObject mo, ResponseObject ro]"
  have len1: "length h1 = Suc v"
    by (simp add: h1_def n_def v_def m_def arr_def)
  have c: "clone h response = Some (h1, v)"
    by (simp add: clone_def assms alloc_response_def alloc_message_def alloc_def
        alloc_tool_calls_eq h1_def A_def mo_def ro_def refs_def n_def v_def m_def arr_def)
  have lR: "lookup h1 v = Some (ResponseObject ro)"
    by (simp add: lookup_def h1_def nth_append n_def v_def m_def arr_def)
  have lM: "lookup h1 m = Some (MessageObject mo)"
    by (simp add: lookup_def h1_def nth_append n_def m_def arr_def)
  have lA: "lookup h1 arr = Some (ArrayObject refs)"
    by (simp add: lookup_def h1_def nth_append n_def arr_def A_def)
  have rc: "read_tool_calls h1 refs = Some calls"
    unfolding h1_def refs_def n_def by (rule read_allocated_tool_calls)
  define stats0 where "stats0 = empty_stats\<lparr>totalToolCalls := length refs\<rparr>"
  have s0: "stats0 = empty_stats\<lparr>totalToolCalls := length calls\<rparr>"
    by (simp add: stats0_def refs_def n_def)
  obtain validCalls stats where
    fc: "filter_calls parse capabilities tools calls stats0 = (validCalls, stats)"
    by (cases "filter_calls parse capabilities tools calls stats0")
  from filter_refs_calls [OF rc, of parse capabilities tools stats0] obtain kept where
    fr: "filter_refs parse h1 capabilities tools refs stats0 = Some (kept, stats)"
    and rk: "read_tool_calls h1 kept = Some validCalls"
    and sub: "set kept \<subseteq> set refs"
    by (auto simp: fc)
  have lk: "length kept = length validCalls"
    using read_tool_calls_length [OF rk] by simp
  define mo' where "mo' = mo\<lparr>tool_calls := Some (length h1)\<rparr>"
  define h2 where "h2 = h1 @ [ArrayObject kept]"
  define h3 where "h3 = h2[m := MessageObject mo']"
  have neq: "v \<noteq> m" "length h1 \<noteq> m" "m < length h2"
    by (simp_all add: v_def len1 h2_def)
  have l3R: "lookup h3 v = Some (ResponseObject ro)"
    using lR neq by (simp add: h3_def h2_def lookup_update_other lookup_append_Some)
  have l3M: "lookup h3 m = Some (MessageObject mo')"
    using neq by (simp add: h3_def lookup_update_same)
  have l3A: "lookup h3 (length h1) = Some (ArrayObject kept)"
    using lookup_append_new [of h1 "ArrayObject kept" "[]"] neq
    by (simp add: h3_def h2_def lookup_update_other)
  have "lookup h3 a = lookup h1 a" if "a \<in> set kept" for a
  proof -
    from that sub have "a < arr" by (auto simp: refs_def arr_def)
    then have "a \<noteq> m" "a < length h1" by (simp_all add: m_def len1 v_def)
    then show ?thesis
      by (simp add: h3_def h2_def lookup_update_other lookup_append_old)
  qed
  then have rk3: "read_tool_calls h3 kept = Some validCalls"
    using read_tool_calls_cong [of kept h3 h1] rk by simp
  have tm: "tool_calls mo' = Some (length h1)" "content mo' = content (message r)"
    by (simp_all add: mo'_def mo_def)
  have rm: "read_message h3 m
      = Some \<lparr>content = content (message r), tool_calls = Some validCalls\<rparr>"
    by (simp add: read_message_def l3M tm l3A rk3)
  have rd: "read_response h3 v
      = Some (r\<lparr>message := (message r)\<lparr>tool_calls := Some validCalls\<rparr>\<rparr>)"
    by (simp add: read_response_def l3R ro_def rm) (simp add: with_message_def)
  have tmo: "tool_calls mo = Some arr"
    by (simp add: mo_def)
  have store: "validateAndTranslateResponse_store parse h response modelName tools
      = Some (convertToGeminiFormat parse
                (r\<lparr>message := (message r)\<lparr>tool_calls := Some validCalls\<rparr>\<rparr>) capabilities,
              record_filtered stats (length validCalls) modelName, h3)"
    unfolding validateAndTranslateResponse_store_def Let_def c capabilities_def [symmetric]
    by (simp add: lR lM tmo lA ro_def fr [unfolded stats0_def] alloc_def
        h2_def [symmetric] mo'_def [symmetric] h3_def [symmetric] rd lk)
  have val: "validateAndTranslateResponse parse r modelName tools
      = (convertToGeminiFormat parse
           (r\<lparr>message := (message r)\<lparr>tool_calls := Some validCalls\<rparr>\<rparr>) capabilities,
         record_filtered stats (length validCalls) modelName)"
    by (simp add: validateAndTranslateResponse_def Let_def assms(2) capabilities_def [symmetric]
        fc [unfolded s0])
  have "length h \<le> m"
    by (simp add: m_def arr_def)
  then have "h3 = h @ (map ToolCallObject calls @ [A, MessageObject mo, ResponseObject ro,
                   ArrayObject kept])[m - length h := MessageObject mo']"
    by (simp add: h3_def h2_def h1_def list_update_append)
  then show ?thesis
    using store val by auto
qed

text \<open>
  C9. For every store and every reference at which a response is stored, for every model
  id and list of registered tools, and whatever \<^verbatim>\<open>JSON.parse\<close> does:
  \<^verbatim>\<open>validateAndTranslateResponse\<close> returns, with the result the function has on the value
  of the response; every object that was in the store before the call is in it unchanged
  after the call (the store has only grown); and the input response, with its message
  and the array of its tool calls, reads as before, also when tool calls were filtered
  out of the output.
\<close>

theorem input_response_unchanged:
  assumes "read_response h response = Some r"
  shows "\<exists>h'. validateAndTranslateResponse_store parse h response modelName registeredTools
                = Some (fst (validateAndTranslateResponse parse r modelName registeredTools),
                        snd (validateAndTranslateResponse parse r modelName registeredTools), h')
            \<and> take (length h) h' = h
            \<and> read_response h' response = Some r"
proof (cases "tool_calls (message r)")
  case None
  have v: "validateAndTranslateResponse parse r modelName registeredTools
      = (convertToGeminiFormat parse r (getModelCapabilities modelName), empty_stats)"
    by (simp add: validateAndTranslateResponse_def Let_def None)
  show ?thesis
    using store_without_tool_calls [OF assms None, of parse modelName registeredTools]
      read_response_append [OF assms]
    by (simp add: v)
next
  case (Some calls)
  from store_with_tool_calls [OF assms Some, of parse modelName registeredTools]
  obtain ext where "validateAndTranslateResponse_store parse h response modelName registeredTools
           = Some (fst (validateAndTranslateResponse parse r modelName registeredTools),
                   snd (validateAndTranslateResponse parse r modelName registeredTools),
                   h @ ext)"
    by blast
  then show ?thesis
    using read_response_append [OF assms, of ext] by simp
qed


lemma read_example_store:
  "read_response example_store 4
     = Some (example_response ''Searching''
               (Some [example_call ''search'' (JStr ''{}''),
                      example_call ''unregistered_fn'' (JObj [])]) True)"
  by (simp add: example_store_def read_response_def read_message_def lookup_def
      with_message_def example_response_def)

theorem input_response_unchanged_witness:
  "read_response example_store 4
     = Some (example_response ''Searching''
               (Some [example_call ''search'' (JStr ''{}''),
                      example_call ''unregistered_fn'' (JObj [])]) True)
   \<and> (\<exists>h'. validateAndTranslateResponse_store example_parse example_store 4 ''mistral:latest''
               [tool_declaring ''search'']
             = Some (fst (validateAndTranslateResponse example_parse
                            (example_response ''Searching''
                               (Some [example_call ''search'' (JStr ''{}''),
                                      example_call ''unregistered_fn'' (JObj [])]) True)
                            ''mistral:latest'' [tool_declaring ''search'']),
                     snd (validateAndTranslateResponse example_parse
                            (example_response ''Searching''
                               (Some [example_call ''search'' (JStr ''{}''),
                                      example_call ''unregistered_fn'' (JObj [])]) True)
                            ''mistral:latest'' [tool_declaring ''search'']),
                     h')
          \<and> take (length example_store) h' = example_store
          \<and> read_response h' 4
              = Some (example_response ''Searching''
                        (Some [example_call ''search'' (JStr ''{}''),
                               example_call ''unregistered_fn'' (JObj [])]) True))"
  using input_response_unchanged [OF read_example_store, of example_parse "''mistral:latest''"
          "[tool_declaring ''search'']"] read_example_store
  by simp

text \<open>
  The run on the example store, evaluated: the call of the unregistered tool is filtered
  out of the copy (whose message, at 8, now refers to the new array at 10), and the five
  objects of the input are as they were.
\<close>

lemma example_store_run:
  "map_option (\<lambda>(out, stats, h'). (function_calls out, unknownToolCalls stats, h'))
     (validateAndTranslateResponse_store example_parse example_store 4 ''mistral:latest''
        [tool_declaring ''search''])
   = Some ([(''search'', JObj [])], 1,
           example_store @
           [ToolCallObject (example_call ''search'' (JStr ''{}'')),
            ToolCallObject (example_call ''unregistered_fn'' (JObj [])),
            ArrayObject [5, 6],
            MessageObject \<lparr>content = ''Searching'', tool_calls = Some 10\<rparr>,
            ResponseObject (with_message (example_response [] None True) 8),
            ArrayObject [5]])"
  by (simp add: validateAndTranslateResponse_store_def clone_def read_response_def
      read_message_def lookup_def alloc_response_def alloc_message_def alloc_def
      example_store_def with_message_def nth_append validation_eval table_eval)



section \<open>Retries\<close>

lemma network_error_fails: "attempt_fails (FetchThrows e)"
  by (simp add: attempt_fails_def try_attempt_def)

lemma bad_status_fails:
  "\<not> (200 \<le> status \<and> status \<le> 299) \<Longrightarrow> attempt_fails (HttpResponse status statusText body)"
  by (auto simp: attempt_fails_def try_attempt_def)


lemma loop_first_success:
  assumes "attempt \<le> k" and "k \<le> maxRetries"
    and "\<forall>j. attempt \<le> j \<and> j < k \<longrightarrow> attempt_fails (server j)"
    and "try_attempt (server k) = Inr v"
  shows "makeRequest_loop server maxRetries attempt waited
           = \<lparr>result = Inr v, attempts = k + 1,
              delays = waited @ map backoff_delay [attempt ..< k]\<rparr>"
  using assms
proof (induction server maxRetries attempt waited rule: makeRequest_loop.induct)
  case (1 server maxRetries attempt waited)
  show ?case
  proof (cases "attempt = k")
    case True
    show ?thesis
      using "1.prems" by (subst makeRequest_loop.simps) (simp add: True)
  next
    case False
    with "1.prems" have lt: "attempt < k" by simp
    with "1.prems" have "attempt_fails (server attempt)" by simp
    then obtain e where e: "try_attempt (server attempt) = Inl e"
      by (auto simp: attempt_fails_def split: sum.splits)
    from lt "1.prems" have ne: "attempt \<noteq> maxRetries" and le: "attempt \<le> maxRetries" by simp_all
    have "makeRequest_loop server maxRetries (attempt + 1)
                (waited @ [min (1000 * 2 ^ attempt) 10000])
           = \<lparr>result = Inr v, attempts = k + 1,
              delays = (waited @ [min (1000 * 2 ^ attempt) 10000])
                         @ map backoff_delay [attempt + 1 ..< k]\<rparr>"
      using "1.prems" lt
      by (intro "1.IH" [OF le e ne refl]) auto
    then have IH: "makeRequest_loop server maxRetries (Suc attempt)
                (waited @ [min (1000 * 2 ^ attempt) 10000])
           = \<lparr>result = Inr v, attempts = Suc k,
              delays = waited @ min (1000 * 2 ^ attempt) 10000
                         # map backoff_delay [Suc attempt ..< k]\<rparr>"
      by simp
    have "[attempt ..< k] = attempt # [attempt + 1 ..< k]"
      using lt by (simp add: upt_conv_Cons)
    then show ?thesis
      using le by (subst makeRequest_loop.simps) (simp add: e ne IH Let_def backoff_delay_def)
  qed
qed



text \<open>Two failures, then a success: three attempts, after delays of 1000 and 2000 ms.\<close>

lemma retry_until_success:
  "makeRequest (failing_first 2) 3
     = \<lparr>result = Inr (JObj []), attempts = 3, delays = [1000, 2000]\<rparr>"
proof -
  have "makeRequest (failing_first 2) 3
      = \<lparr>result = Inr (JObj []), attempts = 2 + 1, delays = [] @ map backoff_delay [0 ..< 2]\<rparr>"
    unfolding makeRequest_def
    by (rule loop_first_success)
       (auto simp: failing_first_def attempt_fails_def try_attempt_def)
  moreover have "[0 ..< 2] = [0, 1 :: nat]"
    by (simp add: upt_rec)
  ultimately show ?thesis
    by (simp add: backoff_delay_def)
qed



section \<open>Streaming\<close>

lemma split_lines_Nil [simp]: "split_lines [] = [[]]"
  by (subst split_lines.simps) simp

lemma split_lines_not_Nil [simp]: "split_lines s \<noteq> []"
  by (subst split_lines.simps) simp

lemma split_lines_line_feed [simp]: "split_lines (line_feed # s) = [] # split_lines s"
  by (subst split_lines.simps) simp

lemma split_lines_other:
  "c \<noteq> line_feed \<Longrightarrow>
     split_lines (c # s) = (c # hd (split_lines s)) # tl (split_lines s)"
proof -
  assume c: "c \<noteq> line_feed"
  have h: "hd (split_lines s) = takeWhile (\<lambda>c. c \<noteq> line_feed) s"
    by (subst split_lines.simps) simp
  have t: "tl (split_lines s)
      = (case dropWhile (\<lambda>c. c \<noteq> line_feed) s of [] \<Rightarrow> [] | d # rest \<Rightarrow> split_lines rest)"
    by (subst split_lines.simps) simp
  show ?thesis
    unfolding h t by (subst split_lines.simps) (simp add: c)
qed

lemma split_lines_no_line_feed:
  "line_feed \<notin> set l \<Longrightarrow> split_lines l = [l]"
  by (induction l) (auto simp: split_lines_other)

lemma split_lines_line:
  "line_feed \<notin> set l \<Longrightarrow> split_lines (l @ line_feed # rest) = l # split_lines rest"
  by (induction l) (auto simp: split_lines_other)

lemma split_lines_terminated:
  assumes "\<forall>l \<in> set lines. line_feed \<notin> set l"
  shows "split_lines (stream_body lines) = lines @ [[]]"
  using assms by (induction lines) (simp_all add: split_lines_line stream_body_def)

lemma last_split_lines: "line_feed \<notin> set (last (split_lines s))"
proof (induction s)
  case Nil
  show ?case by simp
next
  case (Cons c s)
  show ?case
  proof (cases "c = line_feed")
    case True
    with Cons show ?thesis by simp
  next
    case False
    obtain l ls where sl: "split_lines s = l # ls"
      by (cases "split_lines s") simp_all
    show ?thesis
      using Cons False by (cases ls) (simp_all add: split_lines_other sl)
  qed
qed

lemma split_lines_append:
  "split_lines (x @ y) = butlast (split_lines x) @ split_lines (last (split_lines x) @ y)"
proof (induction x)
  case Nil
  show ?case by simp
next
  case (Cons c x)
  show ?case
  proof (cases "c = line_feed")
    case True
    with Cons show ?thesis by simp
  next
    case False
    obtain l ls where sl: "split_lines x = l # ls"
      by (cases "split_lines x") simp_all
    show ?thesis
    proof (cases ls)
      case Nil
      have "split_lines (c # x @ y) = (c # hd (split_lines (l @ y))) # tl (split_lines (l @ y))"
        using Cons by (simp add: split_lines_other [OF False] sl Nil)
      also have "\<dots> = split_lines (c # l @ y)"
        by (simp add: split_lines_other [OF False])
      finally show ?thesis
        by (simp add: split_lines_other [OF False] sl Nil)
    next
      case (Cons l' ls')
      have "split_lines (x @ y) = l # butlast (l' # ls') @ split_lines (last (l' # ls') @ y)"
        using Cons.IH by (simp add: sl Cons)
      then show ?thesis
        by (simp add: split_lines_other [OF False] sl Cons)
    qed
  qed
qed

lemma process_lines_append:
  "process_lines parse (xs @ ys)
     = (if snd (process_lines parse xs) then process_lines parse xs
        else (fst (process_lines parse xs) @ fst (process_lines parse ys),
              snd (process_lines parse ys)))"
proof (induction xs)
  case Nil
  show ?case by simp
next
  case (Cons line xs)
  show ?case
  proof (cases "trim line = []")
    case True
    with Cons show ?thesis by simp
  next
    case False
    show ?thesis
    proof (cases "parse line")
      case None
      with Cons False show ?thesis
        by (simp add: case_prod_beta)
    next
      case (Some f)
      with Cons False show ?thesis
        by (cases "done_flag f") (simp_all add: case_prod_beta)
    qed
  qed
qed

text \<open>
  The reads do not matter: the generator does what the loop over the lines does on the
  complete lines of the whole body.
\<close>

lemma read_loop_complete_lines:
  assumes "line_feed \<notin> set buffer"
  shows "read_loop parse buffer chunks
           = fst (process_lines parse (butlast (split_lines (buffer @ concat chunks))))"
  using assms
proof (induction chunks arbitrary: buffer)
  case Nil
  then show ?case by (simp add: split_lines_no_line_feed)
next
  case (Cons chunk chunks)
  define ls where "ls = split_lines (buffer @ chunk)"
  have IH: "read_loop parse (last ls) chunks
      = fst (process_lines parse (butlast (split_lines (last ls @ concat chunks))))"
    unfolding ls_def by (rule Cons.IH) (rule last_split_lines)
  have "split_lines (buffer @ concat (chunk # chunks))
      = butlast ls @ split_lines (last ls @ concat chunks)"
    using split_lines_append [of "buffer @ chunk" "concat chunks"] by (simp add: ls_def)
  then have b: "butlast (split_lines (buffer @ concat (chunk # chunks)))
      = butlast ls @ butlast (split_lines (last ls @ concat chunks))"
    by (simp add: butlast_append)
  show ?case
    unfolding b process_lines_append
    by (simp add: Let_def ls_def [symmetric] IH case_prod_beta)
qed

lemma generateContentStream_lines:
  assumes "concat chunks = stream_body lines"
    and "\<forall>l \<in> set lines. line_feed \<notin> set l"
  shows "generateContentStream parse chunks = fst (process_lines parse lines)"
  using read_loop_complete_lines [of "[]" parse chunks] split_lines_terminated [OF assms(2)]
  by (simp add: generateContentStream_def assms(1))


lemma yielded_simps [simp]:
  "yielded [] = []"
  "yielded (Yielded r # events) = r # yielded events"
  "yielded (ParseWarning l # events) = yielded events"
  "yielded (events @ events') = yielded events @ yielded events'"
  by (simp_all add: yielded_def List.map_filter_def)

lemma finish_reason_convert:
  "finish_reason_of (convertFromOllamaResponse f) = (if done_flag f then Some STOP else None)"
  by (simp add: finish_reason_of_def convertFromOllamaResponse_def Let_def)

text \<open>The loop over the lines returns exactly when a line that is not blank is a finished frame.\<close>

lemma process_lines_returned:
  "snd (process_lines parse lines)
     = (\<exists>l \<in> set lines. trim l \<noteq> [] \<and> (\<exists>f. parse l = Some f \<and> done_flag f))"
proof (induction lines)
  case Nil
  show ?case by simp
next
  case (Cons line lines)
  show ?case
  proof (cases "trim line = []")
    case True
    with Cons show ?thesis by simp
  next
    case False
    show ?thesis
    proof (cases "parse line")
      case None
      with Cons False show ?thesis by (simp add: case_prod_beta)
    next
      case (Some f)
      with Cons False show ?thesis by (cases "done_flag f") (simp_all add: case_prod_beta)
    qed
  qed
qed

lemma process_lines_not_returned:
  assumes "\<not> snd (process_lines parse lines)"
  shows "\<forall>y \<in> set (yielded (fst (process_lines parse lines))). finish_reason_of y = None"
  using assms
proof (induction lines)
  case Nil
  show ?case by simp
next
  case (Cons line lines)
  show ?case
  proof (cases "trim line = []")
    case True
    with Cons show ?thesis by simp
  next
    case False
    show ?thesis
    proof (cases "parse line")
      case None
      with Cons False show ?thesis by (simp add: case_prod_beta)
    next
      case (Some f)
      with Cons False show ?thesis
        by (cases "done_flag f") (simp_all add: case_prod_beta finish_reason_convert)
    qed
  qed
qed

lemma process_lines_returned_last:
  assumes "snd (process_lines parse lines)"
  shows "\<exists>events f. fst (process_lines parse lines)
                       = events @ [Yielded (convertFromOllamaResponse f)]
            \<and> done_flag f
            \<and> (\<forall>y \<in> set (yielded events). finish_reason_of y = None)"
  using assms
proof (induction lines)
  case Nil
  then show ?case by simp
next
  case (Cons line lines)
  show ?case
  proof (cases "trim line = []")
    case True
    with Cons show ?thesis by simp
  next
    case False
    show ?thesis
    proof (cases "parse line")
      case None
      with Cons.prems False have "snd (process_lines parse lines)"
        by (simp add: case_prod_beta)
      from Cons.IH [OF this] obtain events f where
        e: "fst (process_lines parse lines) = events @ [Yielded (convertFromOllamaResponse f)]"
        and d: "done_flag f"
        and n: "\<forall>y \<in> set (yielded events). finish_reason_of y = None"
        by blast
      have "fst (process_lines parse (line # lines))
          = (ParseWarning line # events) @ [Yielded (convertFromOllamaResponse f)]"
        using None False e by (simp add: case_prod_beta)
      moreover have "\<forall>y \<in> set (yielded (ParseWarning line # events)). finish_reason_of y = None"
        using n by simp
      ultimately show ?thesis
        using d by blast
    next
      case (Some g)
      show ?thesis
      proof (cases "done_flag g")
        case True
        have "fst (process_lines parse (line # lines))
            = [] @ [Yielded (convertFromOllamaResponse g)]"
          using Some False True by simp
        moreover have "\<forall>y \<in> set (yielded []). finish_reason_of y = None"
          by simp
        ultimately show ?thesis
          using True by blast
      next
        case notdone: False
        with Cons.prems False Some have "snd (process_lines parse lines)"
          by (simp add: case_prod_beta)
        from Cons.IH [OF this] obtain events f where
          e: "fst (process_lines parse lines) = events @ [Yielded (convertFromOllamaResponse f)]"
          and d: "done_flag f"
          and n: "\<forall>y \<in> set (yielded events). finish_reason_of y = None"
          by blast
        have "fst (process_lines parse (line # lines))
            = (Yielded (convertFromOllamaResponse g) # events)
                @ [Yielded (convertFromOllamaResponse f)]"
          using Some False notdone e by (simp add: case_prod_beta)
        moreover have "\<forall>y \<in> set (yielded (Yielded (convertFromOllamaResponse g) # events)).
                         finish_reason_of y = None"
          using n notdone by (simp add: finish_reason_convert)
        ultimately show ?thesis
          using d by blast
      qed
    qed
  qed
qed

text \<open>
  C6, as the code has it. A body made of lines, each ended by a line feed (the final frame
  too), arrives in any number of reads cut at any places. When one of the lines is a
  frame with \<^verbatim>\<open>done = true\<close> (in a full exchange: the final one), the generator yields
  at least one response; the last thing it does is to yield its last response, which
  carries the finish reason \<open>STOP\<close>; and no response yielded before it carries a finish
  reason. A frame with \<^verbatim>\<open>done = false\<close> is converted without a finish reason (lemma
  \<open>finish_reason_convert\<close>).
\<close>

theorem finish_reason_only_on_last:
  assumes "concat chunks = stream_body lines"
    and "\<forall>l \<in> set lines. line_feed \<notin> set l"
    and "\<exists>l \<in> set lines. trim l \<noteq> [] \<and> (\<exists>f. parse l = Some f \<and> done_flag f)"
  shows "yielded (generateContentStream parse chunks) \<noteq> []
     \<and> last (generateContentStream parse chunks)
         = Yielded (last (yielded (generateContentStream parse chunks)))
     \<and> finish_reason_of (last (yielded (generateContentStream parse chunks))) = Some STOP
     \<and> (\<forall>y \<in> set (butlast (yielded (generateContentStream parse chunks))).
           finish_reason_of y = None)"
proof -
  have g: "generateContentStream parse chunks = fst (process_lines parse lines)"
    using assms(1,2) by (rule generateContentStream_lines)
  have "snd (process_lines parse lines)"
    using assms(3) by (simp add: process_lines_returned)
  from process_lines_returned_last [OF this] obtain events f where
    e: "fst (process_lines parse lines) = events @ [Yielded (convertFromOllamaResponse f)]"
    and d: "done_flag f"
    and n: "\<forall>y \<in> set (yielded events). finish_reason_of y = None"
    by blast
  show ?thesis
    using d n by (simp add: g e finish_reason_convert)
qed

text \<open>Whatever the body: no response before the last one yielded carries a finish reason.\<close>

lemma finish_reason_not_before_last:
  "\<forall>y \<in> set (butlast (yielded (generateContentStream parse chunks))). finish_reason_of y = None"
proof -
  define lines where "lines = butlast (split_lines (concat chunks))"
  have g: "generateContentStream parse chunks = fst (process_lines parse lines)"
    using read_loop_complete_lines [of "[]" parse chunks]
    by (simp add: generateContentStream_def lines_def)
  show ?thesis
  proof (cases "snd (process_lines parse lines)")
    case True
    from process_lines_returned_last [OF this] obtain events f where
      e: "fst (process_lines parse lines) = events @ [Yielded (convertFromOllamaResponse f)]"
      and n: "\<forall>y \<in> set (yielded events). finish_reason_of y = None"
      by blast
    show ?thesis
      using n by (simp add: g e)
  next
    case False
    from process_lines_not_returned [OF this] show ?thesis
      by (auto simp: g dest: in_set_butlastD)
  qed
qed

text \<open>
  Text after the last line feed of the body stays in the buffer and is never decoded: a
  frame is a line ended by a line feed.
\<close>

lemma unterminated_final_line_dropped:
  assumes "line_feed \<notin> set line" and "line_feed \<notin> set final"
  shows "generateContentStream parse [line @ [line_feed] @ final]
           = fst (process_lines parse [line])"
proof -
  have "split_lines (line @ line_feed # final) = [line, final]"
    using assms by (simp add: split_lines_line split_lines_no_line_feed)
  then show ?thesis
    by (simp add: generateContentStream_def Let_def case_prod_beta)
qed



lemma frame_line_no_line_feed:
  "line_feed \<notin> set t \<Longrightarrow> line_feed \<notin> set (frame_line t finished)"
  by (simp add: frame_line_def quoted_def line_feed_def)

lemma example_texts_no_line_feed:
  "line_feed \<notin> set ''Hel''" "line_feed \<notin> set ''lo''"
  by (simp_all add: line_feed_def)

lemma example_lines_no_line_feed:
  "line_feed \<notin> set (frame_line ''Hel'' False)" "line_feed \<notin> set (frame_line ''lo'' True)"
  by (rule frame_line_no_line_feed, rule example_texts_no_line_feed)+

lemma frame_line_not_blank: "trim (frame_line t finished) \<noteq> []"
  by (simp add: frame_line_def quoted_def trim_def is_space_def)


lemma example_frames:
  "example_frame_parse (frame_line ''Hel'' False) = Some (example_response ''Hel'' None False)"
  "example_frame_parse (frame_line ''lo'' True) = Some (example_response ''lo'' None True)"
  by (simp_all add: example_frame_parse_def frame_line_def quoted_def)

lemma example_done:
  "\<not> done_flag (example_response t calls False)" "done_flag (example_response t calls True)"
  by (simp_all add: example_response_def)

theorem finish_reason_only_on_last_witness:
  "concat [take 50 (stream_body [frame_line ''Hel'' False, frame_line ''lo'' True]),
           drop 50 (stream_body [frame_line ''Hel'' False, frame_line ''lo'' True])]
     = stream_body [frame_line ''Hel'' False, frame_line ''lo'' True]
   \<and> example_frame_parse (frame_line ''lo'' True) = Some (example_response ''lo'' None True)
   \<and> done_flag (example_response ''lo'' None True)
   \<and> yielded (generateContentStream example_frame_parse
        [take 50 (stream_body [frame_line ''Hel'' False, frame_line ''lo'' True]),
         drop 50 (stream_body [frame_line ''Hel'' False, frame_line ''lo'' True])])
       = [convertFromOllamaResponse (example_response ''Hel'' None False),
          convertFromOllamaResponse (example_response ''lo'' None True)]
   \<and> finish_reason_of (last (yielded (generateContentStream example_frame_parse
        [take 50 (stream_body [frame_line ''Hel'' False, frame_line ''lo'' True]),
         drop 50 (stream_body [frame_line ''Hel'' False, frame_line ''lo'' True])])))
       = Some STOP
   \<and> list_all (\<lambda>y. finish_reason_of y = None)
        (butlast (yielded (generateContentStream example_frame_parse
        [take 50 (stream_body [frame_line ''Hel'' False, frame_line ''lo'' True]),
         drop 50 (stream_body [frame_line ''Hel'' False, frame_line ''lo'' True])])))"
proof -
  define body where "body = stream_body [frame_line ''Hel'' False, frame_line ''lo'' True]"
  have c: "concat [take 50 body, drop 50 body]
             = stream_body [frame_line ''Hel'' False, frame_line ''lo'' True]"
    by (simp add: body_def)
  have n: "\<forall>l \<in> set [frame_line ''Hel'' False, frame_line ''lo'' True]. line_feed \<notin> set l"
    by (simp add: example_lines_no_line_feed)
  have d: "\<exists>l \<in> set [frame_line ''Hel'' False, frame_line ''lo'' True].
             trim l \<noteq> [] \<and> (\<exists>f. example_frame_parse l = Some f \<and> done_flag f)"
    by (simp add: frame_line_not_blank example_frames example_done)
  have y: "yielded (generateContentStream example_frame_parse [take 50 body, drop 50 body])
       = [convertFromOllamaResponse (example_response ''Hel'' None False),
          convertFromOllamaResponse (example_response ''lo'' None True)]"
    by (simp add: generateContentStream_lines [OF c n] frame_line_not_blank example_frames
        example_done)
  from finish_reason_only_on_last [OF c n d] y c
  show ?thesis
    by (simp add: body_def [symmetric] example_frames example_done list_all_iff)
qed


text \<open>
  C6 as stated fails when the final frame, with \<^verbatim>\<open>done = true\<close>, is not followed by a
  line feed: its text stays in the buffer, which is not read after the last read, so the
  frame is never decoded and no response yielded carries a finish reason.
\<close>

theorem unterminated_final_frame_not_yielded:
  "example_frame_parse (frame_line ''lo'' True) = Some (example_response ''lo'' None True)
   \<and> done_flag (example_response ''lo'' None True)
   \<and> generateContentStream example_frame_parse
        [frame_line ''Hel'' False @ [line_feed] @ frame_line ''lo'' True]
       = [Yielded (convertFromOllamaResponse (example_response ''Hel'' None False))]
   \<and> finish_reason_of (convertFromOllamaResponse (example_response ''Hel'' None False)) = None
   \<and> list_all (\<lambda>y. finish_reason_of y = None)
        (yielded (generateContentStream example_frame_parse
                    [frame_line ''Hel'' False @ [line_feed] @ frame_line ''lo'' True]))"
proof -
  have g: "generateContentStream example_frame_parse
        [frame_line ''Hel'' False @ [line_feed] @ frame_line ''lo'' True]
       = [Yielded (convertFromOllamaResponse (example_response ''Hel'' None False))]"
    using unterminated_final_line_dropped [OF example_lines_no_line_feed, of example_frame_parse]
    by (simp add: frame_line_not_blank example_frames example_done)
  show ?thesis
    using g by (simp add: example_frames example_done finish_reason_convert)
qed

end
